theory Spec2Isabelle
  imports Main "HOL-Library.AList"
begin

section \<open>The search-indexing pipeline of package search (search.go)\<close>

text \<open>
  The package keeps process-wide variables: the backend client handle \<open>client\<close>
  (a pointer, nil when indexing is off), the ingest \<open>buffer\<close> (a container/list), the
  \<open>failedBuffer\<close> (a slice) and two mutexes. The functions of the package are embedded
  as state transformers on a record of these variables. Everything the package does to
  the outside world (calls of the elastic client library, sleeps, log lines) is appended
  to a \<open>trace\<close>, and every answer of the outside world is read from an environment
  \<open>env\<close>, which may answer depending on the whole trace so far.

  The two endless loops are embedded by their bodies: one function for one iteration,
  and a run that applies iterations and calls of \<open>Index\<close> one after the other. The
  mutexes make the append in \<open>Index\<close> and the drain in \<open>worker\<close> indivisible; here a whole
  call and a whole iteration are one step each, so the mutexes themselves do not appear.
\<close>

subsection \<open>Data\<close>

text \<open>Errors: a library error, \<open>errors.Wrap(err, msg)\<close> and \<open>errortypes.DatabaseError{...}\<close>.\<close>

datatype error = LibError string | Wrap error string | DatabaseError error

text \<open>\<open>type mapping struct { Field string; Type string; Store bool; Index string }\<close>\<close>

record mapping =
  mField :: string
  mType :: string
  mStore :: bool
  mIndex :: string

text \<open>
  JSON values as far as the index-creation body needs them. A Go struct with json tags
  and a Go \<open>map[string]interface{}\<close> both serialise to an object; an object is an
  association list of its members.
\<close>

datatype json = JBool bool | JString string | JObject "(string \<times> json) list"

text \<open>
  A \<open>*elastic.Client\<close>: the address list it was built for, and the length of the trace
  at the moment \<open>elastic.NewClient\<close> built it, which tells two client objects apart.
\<close>

datatype clnt = Client nat "string list"

text \<open>
  The request built by
  \<open>elastic.NewBulkIndexRequest().Index(index).Type(typ).Id(id).Doc(data)\<close>;
  the document is any value (\<open>interface{}\<close>).
\<close>

record 'd request =
  rIndex :: string
  rType :: string
  rId :: string
  rDoc :: 'd

text \<open>What the package does to the outside world, each call with its answer.\<close>

datatype 'd event =
    Sleep nat
  | NewClient "string list" "error option"
  | IndexExists clnt string "error + bool"
  | CreateIndex clnt string json "error option"
  | BulkDo clnt "'d request list" "error option"
  | LogError string error

text \<open>
  The package variables. \<open>oids\<close> counts the calls of \<open>bson.NewObjectId\<close> made so far.
\<close>

record 'd state =
  client :: "clnt option"
  buffer :: "'d request list"
  failedBuffer :: "'d request list"
  oids :: nat
  trace :: "'d event list"

text \<open>
  The outside world: \<open>crypto/md5\<close>, \<open>bson.NewObjectId().Hex()\<close> (its n-th call), and the
  answers of the elastic library, each a function of the trace so far and the arguments
  of the call. \<open>None\<close> is a nil error.
\<close>

record 'd env =
  md5 :: "string \<Rightarrow> string"
  NewObjectId_Hex :: "nat \<Rightarrow> string"
  elastic_NewClient :: "'d event list \<Rightarrow> string list \<Rightarrow> error option"
  elastic_IndexExists :: "'d event list \<Rightarrow> clnt \<Rightarrow> string \<Rightarrow> error + bool"
  elastic_CreateIndex :: "'d event list \<Rightarrow> clnt \<Rightarrow> string \<Rightarrow> json \<Rightarrow> error option"
  elastic_BulkDo :: "'d event list \<Rightarrow> clnt \<Rightarrow> 'd request list \<Rightarrow> error option"

definition emit :: "'d event \<Rightarrow> 'd state \<Rightarrow> 'd state" where
  "emit e s = s\<lparr>trace := trace s @ [e]\<rparr>"

subsection \<open>Index\<close>

definition Index :: "'d env \<Rightarrow> string \<Rightarrow> string \<Rightarrow> 'd \<Rightarrow> 'd state \<Rightarrow> 'd state" where
  "Index env index typ data s =
     (case client s of
        None \<Rightarrow> s
      | Some c \<Rightarrow>
          (let id = NewObjectId_Hex env (oids s);
               request = \<lparr>rIndex = index, rType = typ, rId = id, rDoc = data\<rparr>
           in s\<lparr>buffer := buffer s @ [request], oids := oids s + 1\<rparr>))"

subsection \<open>putIndex\<close>

text \<open>The body of the loop over \<open>mappings\<close>: one assignment into the \<open>properties\<close> map.\<close>

definition property :: "mapping \<Rightarrow> json" where
  "property m =
     (if mType m = ''object'' then JObject [(''enabled'', JBool False)]
      else JObject [(''type'', JString (mType m)), (''store'', JBool (mStore m)),
                    (''index'', JString (mIndex m))])"

definition properties :: "mapping list \<Rightarrow> (string \<times> json) list" where
  "properties mappings =
     foldl (\<lambda>props m. AList.update (mField m) (property m) props) [] mappings"

definition indexBody :: "string \<Rightarrow> mapping list \<Rightarrow> json" where
  "indexBody typ mappings =
     JObject [(''mappings'',
       JObject (AList.update typ (JObject [(''properties'', JObject (properties mappings))]) []))]"

definition putIndex ::
  "'d env \<Rightarrow> clnt \<Rightarrow> string \<Rightarrow> string \<Rightarrow> mapping list \<Rightarrow> 'd state \<Rightarrow> error option \<times> 'd state"
where
  "putIndex env c index typ mappings s =
     (let r = elastic_IndexExists env (trace s) c index;
          s1 = emit (IndexExists c index r) s
      in case r of
           Inl err \<Rightarrow>
             (Some (DatabaseError (Wrap err ''search: Failed to check elastic index'')), s1)
         | Inr True \<Rightarrow> (None, s1)
         | Inr False \<Rightarrow>
             (let data = indexBody typ mappings;
                  r2 = elastic_CreateIndex env (trace s1) c index data;
                  s2 = emit (CreateIndex c index data r2) s1
              in case r2 of
                   Some err \<Rightarrow>
                     (Some (DatabaseError (Wrap err ''search: Failed to create elastic index'')), s2)
                 | None \<Rightarrow> (None, s2)))"

subsection \<open>newClient, hashAddresses, update\<close>

definition newClient ::
  "'d env \<Rightarrow> string list \<Rightarrow> 'd state \<Rightarrow> (clnt option \<times> error option) \<times> 'd state"
where
  "newClient env addrs s =
     (if length addrs = 0 then ((None, None), s)
      else
        (let r = elastic_NewClient env (trace s) addrs;
             s1 = emit (NewClient addrs r) s
         in case r of
              Some err \<Rightarrow>
                ((None, Some (DatabaseError (Wrap err ''search: Failed to create elastic client''))), s1)
            | None \<Rightarrow> ((Some (Client (length (trace s)) addrs), None), s1)))"

definition hashAddresses :: "'d env \<Rightarrow> string list \<Rightarrow> string" where
  "hashAddresses env addrs = md5 env (foldl (\<lambda>written addr. written @ addr) [] addrs)"

definition catalog :: "mapping list" where
  "catalog =
     [] @ [\<lparr>mField = ''user'', mType = ''keyword'', mStore = False, mIndex = ''analyzed''\<rparr>]
        @ [\<lparr>mField = ''session'', mType = ''keyword'', mStore = False, mIndex = ''analyzed''\<rparr>]
        @ [\<lparr>mField = ''address'', mType = ''ip'', mStore = False, mIndex = ''analyzed''\<rparr>]
        @ [\<lparr>mField = ''timestamp'', mType = ''date'', mStore = False, mIndex = ''analyzed''\<rparr>]
        @ [\<lparr>mField = ''scheme'', mType = ''keyword'', mStore = False, mIndex = ''analyzed''\<rparr>]
        @ [\<lparr>mField = ''host'', mType = ''keyword'', mStore = False, mIndex = ''analyzed''\<rparr>]
        @ [\<lparr>mField = ''path'', mType = ''keyword'', mStore = False, mIndex = ''analyzed''\<rparr>]
        @ [\<lparr>mField = ''query'', mType = ''object'', mStore = False, mIndex = ''''\<rparr>]
        @ [\<lparr>mField = ''header'', mType = ''object'', mStore = False, mIndex = ''''\<rparr>]
        @ [\<lparr>mField = ''body'', mType = ''text'', mStore = False, mIndex = ''no''\<rparr>]"

definition update :: "'d env \<Rightarrow> string list \<Rightarrow> 'd state \<Rightarrow> error option \<times> 'd state" where
  "update env addrs s =
     (case newClient env addrs s of
        ((_, Some err), s1) \<Rightarrow> (Some err, s1\<lparr>client := None\<rparr>)
      | ((None, None), s1) \<Rightarrow> (None, s1\<lparr>client := None\<rparr>)
      | ((Some c, None), s1) \<Rightarrow>
          (case putIndex env c ''zero-requests'' ''request'' catalog s1 of
             (Some err, s2) \<Rightarrow> (Some err, s2\<lparr>client := None\<rparr>)
           | (None, s2) \<Rightarrow> (None, s2\<lparr>client := Some c\<rparr>)))"

subsection \<open>watchSearch\<close>

text \<open>
  One iteration of the endless loop of \<open>watchSearch\<close>. The loop variable \<open>hash\<close> is
  threaded with the state; \<open>addrs\<close> is what \<open>settings.Elastic.Addresses\<close> holds when the
  iteration reads it.
\<close>

definition watchSearch_iter ::
  "'d env \<Rightarrow> string list \<Rightarrow> string \<times> 'd state \<Rightarrow> string \<times> 'd state"
where
  "watchSearch_iter env addrs hs =
     (let hash = fst hs; s = snd hs; newHash = hashAddresses env addrs in
      if hash \<noteq> newHash then
        (case update env addrs s of
           (Some err, s1) \<Rightarrow>
             (hash, emit (Sleep 3) (emit (LogError ''search: Failed to update search indexes'' err) s1))
         | (None, s1) \<Rightarrow> (newHash, emit (Sleep 1) s1))
      else (hash, emit (Sleep 1) s))"

subsection \<open>worker\<close>

text \<open>The retry loop \<open>for i := 0; i < 10; i++\<close> with its variable \<open>err\<close>.\<close>

function bulkLoop ::
  "'d env \<Rightarrow> clnt \<Rightarrow> 'd request list \<Rightarrow> nat \<Rightarrow> error option \<Rightarrow> 'd state \<Rightarrow> error option \<times> 'd state"
where
  "bulkLoop env c requests i err s =
     (if i < 10 then
        (let bulk = foldl (\<lambda>added request. added @ [request]) [] requests;
             r = elastic_BulkDo env (trace s) c bulk;
             s1 = emit (BulkDo c bulk r) s
         in case r of
              Some e \<Rightarrow> bulkLoop env c requests (i + 1) (Some e) (emit (Sleep 1) s1)
            | None \<Rightarrow> (None, s1))
      else (err, s))"
  by pat_completeness auto
termination
  by (relation "measure (\<lambda>(env, c, requests, i, err, s). 10 - i)") auto

declare bulkLoop.simps [simp del]

text \<open>One iteration of the endless loop of \<open>worker\<close>.\<close>

definition worker_iter :: "'d env \<Rightarrow> 'd state \<Rightarrow> 'd state" where
  "worker_iter env s =
     (let s0 = emit (Sleep 2) s;
          requests = foldl (\<lambda>requests request. requests @ [request]) [] (buffer s0);
          s1 = s0\<lparr>buffer := []\<rparr>
      in case client s1 of
           None \<Rightarrow> s1
         | Some c \<Rightarrow>
             if length requests = 0 then s1
             else
               (case bulkLoop env c requests 0 None s1 of
                  (Some err, s2) \<Rightarrow>
                    emit (LogError ''search: Bulk insert failed, moving to failed buffer'' err)
                      (s2\<lparr>failedBuffer := failedBuffer s2 @ requests\<rparr>)
                | (None, s2) \<Rightarrow> s2))"

subsection \<open>Runs of the package\<close>

text \<open>
  The package starts with no client, an empty list and an empty slice. A run interleaves
  calls of \<open>Index\<close> by the callers, iterations of \<open>worker\<close> and iterations of
  \<open>watchSearch\<close> (each with the address list the settings hold at that moment); the
  loop variable \<open>hash\<close> of \<open>watchSearch\<close> travels with the state.
\<close>

definition init :: "'d state" where
  "init = \<lparr>client = None, buffer = [], failedBuffer = [], oids = 0, trace = []\<rparr>"

datatype 'd action = CallIndex string string 'd | WorkerIter | WatchIter "string list"

fun step :: "'d env \<Rightarrow> string \<times> 'd state \<Rightarrow> 'd action \<Rightarrow> string \<times> 'd state" where
  "step env (hash, s) (CallIndex index typ data) = (hash, Index env index typ data s)"
| "step env (hash, s) WorkerIter = (hash, worker_iter env s)"
| "step env (hash, s) (WatchIter addrs) = watchSearch_iter env addrs (hash, s)"

definition run :: "'d env \<Rightarrow> 'd action list \<Rightarrow> string \<times> 'd state \<Rightarrow> string \<times> 'd state" where
  "run env acts hs = foldl (step env) hs acts"

text \<open>
  The loop of \<open>watchSearch\<close> from its start, with \<open>hash\<close> the digest of no
  addresses, cut after as many iterations as there are readings of the settings.
\<close>

definition watchSearch :: "'d env \<Rightarrow> string list list \<Rightarrow> 'd state \<Rightarrow> string \<times> 'd state" where
  "watchSearch env readings s = run env (map WatchIter readings) (hashAddresses env [], s)"

subsection \<open>Reading a trace\<close>

text \<open>
  The payloads of the bulk submissions, the index creations and the client
  constructions of a trace.
\<close>

fun bulkOf :: "'d event \<Rightarrow> 'd request list list" where
  "bulkOf (BulkDo c payload r) = [payload]"
| "bulkOf (Sleep n) = []"
| "bulkOf (NewClient addrs r) = []"
| "bulkOf (IndexExists c index r) = []"
| "bulkOf (CreateIndex c index body r) = []"
| "bulkOf (LogError msg err) = []"

definition bulks :: "'d event list \<Rightarrow> 'd request list list" where
  "bulks h = concat (map bulkOf h)"

fun creationOf :: "'d event \<Rightarrow> (clnt \<times> string \<times> json) list" where
  "creationOf (CreateIndex c index body r) = [(c, index, body)]"
| "creationOf (Sleep n) = []"
| "creationOf (NewClient addrs r) = []"
| "creationOf (IndexExists c index r) = []"
| "creationOf (BulkDo c payload r) = []"
| "creationOf (LogError msg err) = []"

definition creations :: "'d event list \<Rightarrow> (clnt \<times> string \<times> json) list" where
  "creations h = concat (map creationOf h)"

fun constructionOf :: "'d event \<Rightarrow> string list list" where
  "constructionOf (NewClient addrs r) = [addrs]"
| "constructionOf (Sleep n) = []"
| "constructionOf (IndexExists c index r) = []"
| "constructionOf (CreateIndex c index body r) = []"
| "constructionOf (BulkDo c payload r) = []"
| "constructionOf (LogError msg err) = []"

definition constructions :: "'d event list \<Rightarrow> string list list" where
  "constructions h = concat (map constructionOf h)"

text \<open>
  The trace position at which a client was built, and the number of creations of an index
  that a client issued in a trace.
\<close>

fun stamp :: "clnt \<Rightarrow> nat" where
  "stamp (Client n addrs) = n"

definition creationsOf :: "clnt \<Rightarrow> string \<Rightarrow> 'd event list \<Rightarrow> nat" where
  "creationsOf c index h = length (filter (\<lambda>(c', i, body). c' = c \<and> i = index) (creations h))"

text \<open>
  Every creation in the trace is by a client built earlier in the trace, and no client
  created an index twice.
\<close>

definition once :: "'d event list \<Rightarrow> bool" where
  "once h \<longleftrightarrow>
     (\<forall>x \<in> set (creations h). stamp (fst x) < length h) \<and>
     (\<forall>c index. creationsOf c index h \<le> 1)"

text \<open>
  The trace after \<open>k\<close> bulk submissions of the payload \<open>b\<close>, each followed by the sleep
  of one second that follows a failed submission.
\<close>

fun retried :: "'d env \<Rightarrow> clnt \<Rightarrow> 'd request list \<Rightarrow> nat \<Rightarrow> 'd event list \<Rightarrow> 'd event list" where
  "retried env c b 0 h = h"
| "retried env c b (Suc k) h =
     retried env c b k (h @ [BulkDo c b (elastic_BulkDo env h c b), Sleep 1])"

text \<open>
  The requests that the calls of \<open>Index\<close> among the actions build, in the order of the
  calls, when \<open>n\<close> object ids have been drawn before.
\<close>

fun enqueued :: "'d env \<Rightarrow> nat \<Rightarrow> 'd action list \<Rightarrow> 'd request list" where
  "enqueued env n [] = []"
| "enqueued env n (CallIndex index typ data # acts) =
     \<lparr>rIndex = index, rType = typ, rId = NewObjectId_Hex env n, rDoc = data\<rparr>
       # enqueued env (n + 1) acts"
| "enqueued env n (WorkerIter # acts) = enqueued env n acts"
| "enqueued env n (WatchIter addrs # acts) = enqueued env n acts"

text \<open>
  The requests that the calls of \<open>Index\<close> made while the client is set build, in the
  order of the calls, in the run of the actions from the given state.
\<close>

fun accepted :: "'d env \<Rightarrow> 'd action list \<Rightarrow> string \<times> 'd state \<Rightarrow> 'd request list" where
  "accepted env [] hs = []"
| "accepted env (CallIndex index typ data # acts) (hash, s) =
     (case client s of
        None \<Rightarrow> []
      | Some c \<Rightarrow> [\<lparr>rIndex = index, rType = typ, rId = NewObjectId_Hex env (oids s), rDoc = data\<rparr>])
     @ accepted env acts (step env (hash, s) (CallIndex index typ data))"
| "accepted env (WorkerIter # acts) (hash, s) = accepted env acts (step env (hash, s) WorkerIter)"
| "accepted env (WatchIter addrs # acts) (hash, s) =
     accepted env acts (step env (hash, s) (WatchIter addrs))"

text \<open>
  In the run of the actions from the given state, every iteration of \<open>worker\<close> finds
  the client set or the buffer empty.
\<close>

fun drainsPresent :: "'d env \<Rightarrow> 'd action list \<Rightarrow> string \<times> 'd state \<Rightarrow> bool" where
  "drainsPresent env [] hs = True"
| "drainsPresent env (WorkerIter # acts) (hash, s) =
     ((client s \<noteq> None \<or> buffer s = []) \<and> drainsPresent env acts (step env (hash, s) WorkerIter))"
| "drainsPresent env (CallIndex index typ data # acts) (hash, s) =
     drainsPresent env acts (step env (hash, s) (CallIndex index typ data))"
| "drainsPresent env (WatchIter addrs # acts) (hash, s) =
     drainsPresent env acts (step env (hash, s) (WatchIter addrs))"

subsection \<open>Example worlds and states\<close>

text \<open>
  A backend that answers every call without error and has no index yet; the digest is
  the written bytes themselves and the n-th object id is n letters.
\<close>

definition envOk :: "nat env" where
  "envOk = \<lparr>md5 = (\<lambda>written. written), NewObjectId_Hex = (\<lambda>n. replicate n CHR ''a''),
     elastic_NewClient = (\<lambda>h addrs. None),
     elastic_IndexExists = (\<lambda>h c index. Inr False),
     elastic_CreateIndex = (\<lambda>h c index body. None),
     elastic_BulkDo = (\<lambda>h c payload. None)\<rparr>"

text \<open>The same backend, failing every bulk submission.\<close>

definition envBulkFails :: "nat env" where
  "envBulkFails = envOk\<lparr>elastic_BulkDo := (\<lambda>h c payload. Some (LibError ''no node''))\<rparr>"

text \<open>The same backend, failing the first two bulk submissions of a trace.\<close>

definition envFlaky :: "nat env" where
  "envFlaky = envOk\<lparr>elastic_BulkDo :=
     (\<lambda>h c payload. if length (bulks h) < 2 then Some (LibError ''timeout'') else None)\<rparr>"

text \<open>The same backend, failing every index creation.\<close>

definition envCreateFails :: "nat env" where
  "envCreateFails = envOk\<lparr>elastic_CreateIndex := (\<lambda>h c index body. Some (LibError ''refused''))\<rparr>"

text \<open>The same backend, failing every client construction.\<close>

definition envNewClientFails :: "nat env" where
  "envNewClientFails = envOk\<lparr>elastic_NewClient := (\<lambda>h addrs. Some (LibError ''no route''))\<rparr>"

text \<open>The same backend, failing every existence check.\<close>

definition envExistsFails :: "nat env" where
  "envExistsFails = envOk\<lparr>elastic_IndexExists := (\<lambda>h c index. Inl (LibError ''timeout''))\<rparr>"

text \<open>The same backend, where every index exists already.\<close>

definition envIndexed :: "nat env" where
  "envIndexed = envOk\<lparr>elastic_IndexExists := (\<lambda>h c index. Inr True)\<rparr>"

text \<open>A state with a client and two buffered requests, and the same state without the client.\<close>

definition sPresent :: "nat state" where
  "sPresent = \<lparr>client = Some (Client 0 [''backend-1'']),
     buffer = [\<lparr>rIndex = ''zero-requests'', rType = ''request'', rId = [], rDoc = 1\<rparr>,
               \<lparr>rIndex = ''zero-requests'', rType = ''request'', rId = ''a'', rDoc = 1\<rparr>],
     failedBuffer = [], oids = 2, trace = []\<rparr>"

definition sAbsent :: "nat state" where
  "sAbsent = sPresent\<lparr>client := None\<rparr>"

section \<open>Properties\<close>

subsection \<open>The two copying loops\<close>

lemma foldl_snoc: "foldl (\<lambda>acc x. acc @ [x]) ys xs = ys @ xs"
  by (induction xs arbitrary: ys) simp_all

lemma foldl_append_concat: "foldl (\<lambda>written addr. written @ addr) ys xss = ys @ concat xss"
  by (induction xss arbitrary: ys) simp_all

lemma hashAddresses_concat: "hashAddresses env addrs = md5 env (concat addrs)"
  by (simp add: hashAddresses_def foldl_append_concat)

subsection \<open>Index\<close>

lemma run_Index_absent:
  "client s = None \<Longrightarrow>
   run env (map (\<lambda>(i, t, d). CallIndex i t d) calls) (hash, s) = (hash, s)"
  by (induction calls) (simp_all add: run_def Index_def split: prod.splits)

lemma run_Index_present:
  "client s = Some c \<Longrightarrow>
   run env (map (\<lambda>(i, t, d). CallIndex i t d) calls) (hash, s) =
     (hash, s\<lparr>buffer := buffer s @ enqueued env (oids s) (map (\<lambda>(i, t, d). CallIndex i t d) calls),
              oids := oids s + length calls\<rparr>)"
proof (induction calls arbitrary: s)
  case Nil
  then show ?case by (simp add: run_def)
next
  case (Cons call calls)
  obtain i t d where call: "call = (i, t, d)"
    by (cases call)
  let ?s1 = "s\<lparr>buffer := buffer s @ [\<lparr>rIndex = i, rType = t,
      rId = NewObjectId_Hex env (oids s), rDoc = d\<rparr>], oids := oids s + 1\<rparr>"
  have s1: "Index env i t d s = ?s1"
    using Cons.prems by (simp add: Index_def)
  have "client ?s1 = Some c"
    using Cons.prems by simp
  from Cons.IH [OF this] show ?case
    by (simp add: run_def call s1)
qed

lemma enqueued_calls_length:
  "length (enqueued env n (map (\<lambda>(i, t, d). CallIndex i t d) calls)) = length calls"
  by (induction calls arbitrary: n) (simp_all split: prod.splits)

text \<open>
  Claim C5. \<open>Index\<close> is a total function from state to state: it returns no value and
  no error. With the client handle absent it returns the state as it was, so the record
  is dropped and neither buffer changes, however many calls are made. With the handle
  present it appends exactly one new request, built from its arguments and a newly drawn
  object id, to the end of the ingest buffer, and changes nothing else of the package
  variables: after any number of calls the buffer is longer by that number and
  \<open>failedBuffer\<close> is as before.
\<close>

theorem Index_effect:
  "(client s = None \<longrightarrow>
      Index env index typ data s = s \<and>
      run env (map (\<lambda>(i, t, d). CallIndex i t d) calls) (hash, s) = (hash, s)) \<and>
   (\<forall>c. client s = Some c \<longrightarrow>
      Index env index typ data s =
        s\<lparr>buffer := buffer s @ [\<lparr>rIndex = index, rType = typ,
                                   rId = NewObjectId_Hex env (oids s), rDoc = data\<rparr>],
          oids := oids s + 1\<rparr> \<and>
      length (buffer (snd (run env (map (\<lambda>(i, t, d). CallIndex i t d) calls) (hash, s)))) =
        length (buffer s) + length calls \<and>
      failedBuffer (snd (run env (map (\<lambda>(i, t, d). CallIndex i t d) calls) (hash, s))) =
        failedBuffer s)"
proof (intro conjI allI impI)
  assume "client s = None"
  then show "Index env index typ data s = s"
    by (simp add: Index_def)
  show "run env (map (\<lambda>(i, t, d). CallIndex i t d) calls) (hash, s) = (hash, s)"
    by (rule run_Index_absent) fact
next
  fix c
  assume c: "client s = Some c"
  then show "Index env index typ data s =
      s\<lparr>buffer := buffer s @ [\<lparr>rIndex = index, rType = typ,
                                 rId = NewObjectId_Hex env (oids s), rDoc = data\<rparr>],
        oids := oids s + 1\<rparr>"
    by (simp add: Index_def)
  show "length (buffer (snd (run env (map (\<lambda>(i, t, d). CallIndex i t d) calls) (hash, s)))) =
      length (buffer s) + length calls"
    by (simp add: run_Index_present [OF c] enqueued_calls_length)
  show "failedBuffer (snd (run env (map (\<lambda>(i, t, d). CallIndex i t d) calls) (hash, s))) =
      failedBuffer s"
    by (simp add: run_Index_present [OF c])
qed

theorem Index_effect_witness:
  "client sAbsent = None \<and> Index envOk ''zero-requests'' ''request'' 7 sAbsent = sAbsent \<and>
   run envOk [CallIndex ''zero-requests'' ''request'' 7, CallIndex ''zero-requests'' ''request'' 8]
     ([], sAbsent) = ([], sAbsent) \<and>
   client sPresent = Some (Client 0 [''backend-1'']) \<and>
   buffer (Index envOk ''zero-requests'' ''request'' 7 sPresent) =
     buffer sPresent @ [\<lparr>rIndex = ''zero-requests'', rType = ''request'', rId = ''aa'', rDoc = 7\<rparr>] \<and>
   failedBuffer (Index envOk ''zero-requests'' ''request'' 7 sPresent) = failedBuffer sPresent \<and>
   length (buffer (snd (run envOk
     [CallIndex ''zero-requests'' ''request'' 7, CallIndex ''zero-requests'' ''request'' 8]
     ([], sPresent)))) = 4"
proof -
  let ?calls = "[(''zero-requests'', ''request'', 7::nat), (''zero-requests'', ''request'', 8)]"
  have a: "client sAbsent = None"
    by (simp add: sAbsent_def)
  have p: "client sPresent = Some (Client 0 [''backend-1''])" and n: "length (buffer sPresent) = 2"
    by (simp_all add: sPresent_def)
  have id: "NewObjectId_Hex envOk (oids sPresent) = ''aa''"
    by (simp add: envOk_def sPresent_def numeral_2_eq_2)
  from Index_effect [of sAbsent envOk "''zero-requests''" "''request''" 7 ?calls "[]"] a
  have 1: "Index envOk ''zero-requests'' ''request'' 7 sAbsent = sAbsent"
    and 2: "run envOk [CallIndex ''zero-requests'' ''request'' 7,
      CallIndex ''zero-requests'' ''request'' 8] ([], sAbsent) = ([], sAbsent)"
    by simp_all
  from Index_effect [of sPresent envOk "''zero-requests''" "''request''" 7 ?calls "[]"] p id
  have 3: "Index envOk ''zero-requests'' ''request'' 7 sPresent =
      sPresent\<lparr>buffer := buffer sPresent @
          [\<lparr>rIndex = ''zero-requests'', rType = ''request'', rId = ''aa'', rDoc = 7\<rparr>],
        oids := oids sPresent + 1\<rparr>"
    and 4: "length (buffer (snd (run envOk [CallIndex ''zero-requests'' ''request'' 7,
      CallIndex ''zero-requests'' ''request'' 8] ([], sPresent)))) = length (buffer sPresent) + 2"
    by simp_all
  have "buffer (Index envOk ''zero-requests'' ''request'' 7 sPresent) =
      buffer sPresent @ [\<lparr>rIndex = ''zero-requests'', rType = ''request'', rId = ''aa'', rDoc = 7\<rparr>]"
    and "failedBuffer (Index envOk ''zero-requests'' ''request'' 7 sPresent) = failedBuffer sPresent"
    unfolding 3 by simp_all
  with a p 1 2 4 n show ?thesis
    by simp
qed

subsection \<open>worker\<close>

lemma bulkLoop_unfold:
  "bulkLoop env c b i err s =
     (if i < 10 then
        (case elastic_BulkDo env (trace s) c b of
           Some e \<Rightarrow> bulkLoop env c b (i + 1) (Some e)
                       (s\<lparr>trace := trace s @ [BulkDo c b (Some e), Sleep 1]\<rparr>)
         | None \<Rightarrow> (None, s\<lparr>trace := trace s @ [BulkDo c b None]\<rparr>))
      else (err, s))"
  by (subst bulkLoop.simps) (simp add: foldl_snoc emit_def Let_def split: option.splits)

lemma bulkLoop_success:
  "i + k < 10 \<Longrightarrow>
   (\<forall>j<k. elastic_BulkDo env (retried env c b j (trace s)) c b \<noteq> None) \<Longrightarrow>
   elastic_BulkDo env (retried env c b k (trace s)) c b = None \<Longrightarrow>
   bulkLoop env c b i err s =
     (None, s\<lparr>trace := retried env c b k (trace s) @ [BulkDo c b None]\<rparr>)"
proof (induction k arbitrary: i err s)
  case 0
  then show ?case by (subst bulkLoop_unfold) simp
next
  case (Suc k)
  from Suc.prems(2) have "elastic_BulkDo env (retried env c b 0 (trace s)) c b \<noteq> None"
    by blast
  then obtain e where e: "elastic_BulkDo env (trace s) c b = Some e"
    by auto
  let ?s = "s\<lparr>trace := trace s @ [BulkDo c b (Some e), Sleep 1]\<rparr>"
  have fails: "\<forall>j<k. elastic_BulkDo env (retried env c b j (trace ?s)) c b \<noteq> None"
  proof (intro allI impI)
    fix j assume "j < k"
    then have "Suc j < Suc k" by simp
    with Suc.prems(2) have "elastic_BulkDo env (retried env c b (Suc j) (trace s)) c b \<noteq> None"
      by blast
    then show "elastic_BulkDo env (retried env c b j (trace ?s)) c b \<noteq> None"
      by (simp add: e)
  qed
  have ok: "elastic_BulkDo env (retried env c b k (trace ?s)) c b = None"
    using Suc.prems(3) by (simp add: e)
  from Suc.prems(1) have "Suc i + k < 10" by simp
  from Suc.IH [OF this fails ok]
  have "bulkLoop env c b (Suc i) (Some e) ?s =
      (None, ?s\<lparr>trace := retried env c b k (trace ?s) @ [BulkDo c b None]\<rparr>)" .
  moreover have "i < 10" using Suc.prems(1) by simp
  then have "bulkLoop env c b i err s = bulkLoop env c b (Suc i) (Some e) ?s"
    by (subst bulkLoop_unfold) (simp add: e)
  ultimately show ?case
    by (simp add: e)
qed

lemma bulkLoop_exhausted:
  "i + k = 10 \<Longrightarrow>
   (\<forall>j<k. elastic_BulkDo env (retried env c b j (trace s)) c b \<noteq> None) \<Longrightarrow>
   bulkLoop env c b i err s =
     (if k = 0 then err else elastic_BulkDo env (retried env c b (k - 1) (trace s)) c b,
      s\<lparr>trace := retried env c b k (trace s)\<rparr>)"
proof (induction k arbitrary: i err s)
  case 0
  then show ?case by (subst bulkLoop_unfold) simp
next
  case (Suc k)
  from Suc.prems(2) have "elastic_BulkDo env (retried env c b 0 (trace s)) c b \<noteq> None"
    by blast
  then obtain e where e: "elastic_BulkDo env (trace s) c b = Some e"
    by auto
  let ?s = "s\<lparr>trace := trace s @ [BulkDo c b (Some e), Sleep 1]\<rparr>"
  have fails: "\<forall>j<k. elastic_BulkDo env (retried env c b j (trace ?s)) c b \<noteq> None"
  proof (intro allI impI)
    fix j assume "j < k"
    then have "Suc j < Suc k" by simp
    with Suc.prems(2) have "elastic_BulkDo env (retried env c b (Suc j) (trace s)) c b \<noteq> None"
      by blast
    then show "elastic_BulkDo env (retried env c b j (trace ?s)) c b \<noteq> None"
      by (simp add: e)
  qed
  from Suc.prems(1) have "Suc i + k = 10" by simp
  from Suc.IH [OF this fails]
  have ih: "bulkLoop env c b (Suc i) (Some e) ?s =
      (if k = 0 then Some e else elastic_BulkDo env (retried env c b (k - 1) (trace ?s)) c b,
       ?s\<lparr>trace := retried env c b k (trace ?s)\<rparr>)" .
  have "i < 10" using Suc.prems(1) by simp
  then have "bulkLoop env c b i err s = bulkLoop env c b (Suc i) (Some e) ?s"
    by (subst bulkLoop_unfold) (simp add: e)
  with ih show ?case
    by (cases k) (simp_all add: e)
qed

lemma bulks_append: "bulks (h @ h') = bulks h @ bulks h'"
  by (simp add: bulks_def)

lemma bulks_Nil: "bulks [] = []"
  by (simp add: bulks_def)

lemma bulks_Cons: "bulks (e # h) = bulkOf e @ bulks h"
  by (simp add: bulks_def)

lemma bulks_retried: "length (bulks (retried env c b k h)) = length (bulks h) + k"
  by (induction k arbitrary: h) (simp_all add: bulks_def)

lemma worker_iter_idle:
  "client s = None \<or> buffer s = [] \<Longrightarrow>
   worker_iter env s = s\<lparr>buffer := [], trace := trace s @ [Sleep 2]\<rparr>"
  by (auto simp: worker_iter_def emit_def foldl_snoc Let_def split: option.splits)


lemma bulkLoop_shape:
  "\<exists>evs. snd (bulkLoop env c b i err s) = s\<lparr>trace := trace s @ evs\<rparr> \<and>
         creations evs = [] \<and> constructions evs = [] \<and>
         length (bulks evs) \<le> 10 - i \<and> set (bulks evs) \<subseteq> {b}"
proof (induction "10 - i" arbitrary: i err s)
  case 0
  then have "\<not> i < 10" by simp
  then have "snd (bulkLoop env c b i err s) = s\<lparr>trace := trace s @ []\<rparr>"
    by (subst bulkLoop_unfold) simp
  then show ?case
    by (intro exI [of _ "[]"]) (simp add: creations_def constructions_def bulks_def)
next
  case (Suc n)
  then have i: "i < 10" by simp
  show ?case
  proof (cases "elastic_BulkDo env (trace s) c b")
    case None
    with i have "snd (bulkLoop env c b i err s) = s\<lparr>trace := trace s @ [BulkDo c b None]\<rparr>"
      by (subst bulkLoop_unfold) simp
    with i show ?thesis
      by (intro exI [of _ "[BulkDo c b None]"])
        (simp add: creations_def constructions_def bulks_def)
  next
    case (Some e)
    let ?s = "s\<lparr>trace := trace s @ [BulkDo c b (Some e), Sleep 1]\<rparr>"
    from Suc.hyps(2) have "n = 10 - Suc i" by simp
    from Suc.hyps(1) [OF this, of "Some e" ?s]
    obtain evs where evs: "snd (bulkLoop env c b (Suc i) (Some e) ?s) = ?s\<lparr>trace := trace ?s @ evs\<rparr>"
      "creations evs = []" "constructions evs = []"
      "length (bulks evs) \<le> 10 - Suc i" "set (bulks evs) \<subseteq> {b}"
      by blast
    from i Some have "bulkLoop env c b i err s = bulkLoop env c b (Suc i) (Some e) ?s"
      by (subst bulkLoop_unfold) simp
    with evs i show ?thesis
      by (intro exI [of _ "[BulkDo c b (Some e), Sleep 1] @ evs"])
        (simp add: creations_def constructions_def bulks_def)
  qed
qed

lemma worker_iter_unfold:
  assumes "client s = Some c" and "buffer s \<noteq> []"
  shows "worker_iter env s =
     (case bulkLoop env c (buffer s) 0 None (s\<lparr>trace := trace s @ [Sleep 2], buffer := []\<rparr>) of
        (Some err, s2) \<Rightarrow>
          s2\<lparr>failedBuffer := failedBuffer s2 @ buffer s,
             trace := trace s2 @ [LogError ''search: Bulk insert failed, moving to failed buffer'' err]\<rparr>
      | (None, s2) \<Rightarrow> s2)"
proof (cases "bulkLoop env c (buffer s) 0 None (s\<lparr>trace := trace s @ [Sleep 2], buffer := []\<rparr>)")
  case (Pair r s2)
  with assms show ?thesis
    by (cases r) (simp_all add: worker_iter_def emit_def foldl_snoc Let_def)
qed

lemma worker_iter_ok:
  assumes "client s = Some c" and "buffer s \<noteq> []"
    and "elastic_BulkDo env (trace s @ [Sleep 2]) c (buffer s) = None"
  shows "worker_iter env s =
    s\<lparr>buffer := [], trace := trace s @ [Sleep 2, BulkDo c (buffer s) None]\<rparr>"
proof -
  let ?s1 = "s\<lparr>trace := trace s @ [Sleep 2], buffer := []\<rparr>"
  have "bulkLoop env c (buffer s) 0 None ?s1 =
      (None, ?s1\<lparr>trace := trace ?s1 @ [BulkDo c (buffer s) None]\<rparr>)"
    using assms(3) by (subst bulkLoop_unfold) simp
  then show ?thesis
    by (simp add: worker_iter_unfold [OF assms(1,2)])
qed

text \<open>
  Claim C1. Every iteration of \<open>worker\<close> leaves the ingest buffer empty, whether or
  not a client is set. When the client is nil or the drained batch is empty the iteration
  does nothing but sleep and replace the buffer by an empty one: no bulk submission is
  made, nothing is appended to \<open>failedBuffer\<close> and nothing is put back, so a non-empty
  batch drained while the client is nil is held by no package variable afterwards.
\<close>

theorem worker_iter_drains:
  "buffer (worker_iter env s) = [] \<and>
   (client s = None \<or> buffer s = [] \<longrightarrow>
      worker_iter env s = s\<lparr>buffer := [], trace := trace s @ [Sleep 2]\<rparr>)"
proof
  show "buffer (worker_iter env s) = []"
  proof (cases "client s = None \<or> buffer s = []")
    case True
    then show ?thesis by (simp add: worker_iter_idle)
  next
    case False
    then obtain c where c: "client s = Some c" and b: "buffer s \<noteq> []"
      by auto
    let ?s1 = "s\<lparr>trace := trace s @ [Sleep 2], buffer := []\<rparr>"
    obtain evs where "snd (bulkLoop env c (buffer s) 0 None ?s1) = ?s1\<lparr>trace := trace ?s1 @ evs\<rparr>"
      using bulkLoop_shape [of env c "buffer s" 0 None ?s1] by blast
    then have "buffer (snd (bulkLoop env c (buffer s) 0 None ?s1)) = []"
      by simp
    then show ?thesis
      by (cases "bulkLoop env c (buffer s) 0 None ?s1")
        (simp add: worker_iter_unfold [OF c b] split: option.splits)
  qed
  show "client s = None \<or> buffer s = [] \<longrightarrow>
      worker_iter env s = s\<lparr>buffer := [], trace := trace s @ [Sleep 2]\<rparr>"
    by (simp add: worker_iter_idle)
qed

theorem worker_iter_drains_witness:
  "client sAbsent = None \<and> length (buffer sAbsent) = 2 \<and>
   buffer (worker_iter envOk sAbsent) = [] \<and>
   failedBuffer (worker_iter envOk sAbsent) = [] \<and>
   trace (worker_iter envOk sAbsent) = [Sleep 2]"
proof -
  have a: "client sAbsent = None"
    by (simp add: sAbsent_def)
  with worker_iter_drains [of envOk sAbsent]
  have "worker_iter envOk sAbsent = sAbsent\<lparr>buffer := [], trace := trace sAbsent @ [Sleep 2]\<rparr>"
    by simp
  then show ?thesis
    by (simp add: sAbsent_def sPresent_def)
qed

text \<open>
  Claim C3. With a client set and a non-empty batch \<open>b\<close> drained, an iteration of
  \<open>worker\<close> makes at most ten bulk submissions and leaves the ingest buffer empty. The
  first submission that succeeds (after \<open>k < 10\<close> failed ones, each followed by a sleep
  of one second) ends the loop and \<open>failedBuffer\<close> is untouched. When all ten fail,
  the whole batch is appended to \<open>failedBuffer\<close>, whose length grows by exactly the
  length of the batch, the failure is logged, and the iteration ends in a state with the
  same client, from which the next iteration runs as any other.
\<close>

theorem worker_iter_retry:
  assumes "client s = Some c" and "buffer s = b" and "b \<noteq> []"
  shows "length (bulks (trace (worker_iter env s))) \<le> length (bulks (trace s)) + 10 \<and>
    buffer (worker_iter env s) = [] \<and>
    (\<forall>k<10.
       (\<forall>j<k. elastic_BulkDo env (retried env c b j (trace s @ [Sleep 2])) c b \<noteq> None) \<and>
       elastic_BulkDo env (retried env c b k (trace s @ [Sleep 2])) c b = None \<longrightarrow>
       worker_iter env s =
         s\<lparr>buffer := [],
           trace := retried env c b k (trace s @ [Sleep 2]) @ [BulkDo c b None]\<rparr>) \<and>
    ((\<forall>j<10. elastic_BulkDo env (retried env c b j (trace s @ [Sleep 2])) c b \<noteq> None) \<longrightarrow>
       (\<exists>e. elastic_BulkDo env (retried env c b 9 (trace s @ [Sleep 2])) c b = Some e \<and>
            worker_iter env s =
              s\<lparr>buffer := [], failedBuffer := failedBuffer s @ b,
                trace := retried env c b 10 (trace s @ [Sleep 2]) @
                  [LogError ''search: Bulk insert failed, moving to failed buffer'' e]\<rparr>) \<and>
       length (failedBuffer (worker_iter env s)) = length (failedBuffer s) + length b)"
proof (intro conjI allI impI)
  let ?s1 = "s\<lparr>trace := trace s @ [Sleep 2], buffer := []\<rparr>"
  note unfold = worker_iter_unfold [OF assms(1), of env, unfolded assms(2), OF assms(3)]
  obtain evs where evs: "snd (bulkLoop env c b 0 None ?s1) = ?s1\<lparr>trace := trace ?s1 @ evs\<rparr>"
    "length (bulks evs) \<le> 10 - 0"
    using bulkLoop_shape [of env c b 0 None ?s1] by blast
  show "length (bulks (trace (worker_iter env s))) \<le> length (bulks (trace s)) + 10"
    using evs by (cases "bulkLoop env c b 0 None ?s1")
      (simp add: unfold bulks_def split: option.splits)
  show "buffer (worker_iter env s) = []"
    using evs by (cases "bulkLoop env c b 0 None ?s1")
      (simp add: unfold split: option.splits)
  {
    fix k :: nat
    assume k: "k < 10"
      and h: "(\<forall>j<k. elastic_BulkDo env (retried env c b j (trace s @ [Sleep 2])) c b \<noteq> None) \<and>
        elastic_BulkDo env (retried env c b k (trace s @ [Sleep 2])) c b = None"
    from k have "0 + k < 10" by simp
    from bulkLoop_success [of 0 k env c b ?s1 None, OF this] h
    have "bulkLoop env c b 0 None ?s1 =
        (None, ?s1\<lparr>trace := retried env c b k (trace ?s1) @ [BulkDo c b None]\<rparr>)"
      by simp
    then show "worker_iter env s =
        s\<lparr>buffer := [], trace := retried env c b k (trace s @ [Sleep 2]) @ [BulkDo c b None]\<rparr>"
      by (simp add: unfold)
  }
  assume fails: "\<forall>j<10. elastic_BulkDo env (retried env c b j (trace s @ [Sleep 2])) c b \<noteq> None"
  then obtain e where e: "elastic_BulkDo env (retried env c b 9 (trace s @ [Sleep 2])) c b = Some e"
    by fastforce
  have "0 + 10 = (10::nat)" by simp
  from bulkLoop_exhausted [of 0 10 env c b ?s1 None, OF this] fails e
  have "bulkLoop env c b 0 None ?s1 = (Some e, ?s1\<lparr>trace := retried env c b 10 (trace ?s1)\<rparr>)"
    by simp
  then have w: "worker_iter env s =
      s\<lparr>buffer := [], failedBuffer := failedBuffer s @ b,
        trace := retried env c b 10 (trace s @ [Sleep 2]) @
          [LogError ''search: Bulk insert failed, moving to failed buffer'' e]\<rparr>"
    by (simp add: unfold)
  with e show "\<exists>e. elastic_BulkDo env (retried env c b 9 (trace s @ [Sleep 2])) c b = Some e \<and>
      worker_iter env s =
        s\<lparr>buffer := [], failedBuffer := failedBuffer s @ b,
          trace := retried env c b 10 (trace s @ [Sleep 2]) @
            [LogError ''search: Bulk insert failed, moving to failed buffer'' e]\<rparr>"
    by blast
  from w show "length (failedBuffer (worker_iter env s)) = length (failedBuffer s) + length b"
    by simp
qed


theorem worker_iter_retry_witness:
  "client sPresent = Some (Client 0 [''backend-1'']) \<and> length (buffer sPresent) = 2 \<and>
   failedBuffer sPresent = [] \<and>
   failedBuffer (worker_iter envBulkFails sPresent) = buffer sPresent \<and>
   buffer (worker_iter envBulkFails sPresent) = [] \<and>
   client (worker_iter envBulkFails sPresent) = client sPresent \<and>
   length (bulks (trace (worker_iter envBulkFails sPresent))) = 10 \<and>
   failedBuffer (worker_iter envFlaky sPresent) = [] \<and>
   trace (worker_iter envFlaky sPresent) =
     [Sleep 2,
      BulkDo (Client 0 [''backend-1'']) (buffer sPresent) (Some (LibError ''timeout'')), Sleep 1,
      BulkDo (Client 0 [''backend-1'']) (buffer sPresent) (Some (LibError ''timeout'')), Sleep 1,
      BulkDo (Client 0 [''backend-1'']) (buffer sPresent) None] \<and>
   failedBuffer (worker_iter envOk (Index envOk ''zero-requests'' ''request'' 5
      (worker_iter envBulkFails sPresent))) = buffer sPresent \<and>
   buffer (worker_iter envOk (Index envOk ''zero-requests'' ''request'' 5
      (worker_iter envBulkFails sPresent))) = [] \<and>
   last (trace (worker_iter envOk (Index envOk ''zero-requests'' ''request'' 5
      (worker_iter envBulkFails sPresent)))) =
     BulkDo (Client 0 [''backend-1''])
       [\<lparr>rIndex = ''zero-requests'', rType = ''request'', rId = ''aa'', rDoc = 5\<rparr>] None"
proof -
  let ?c = "Client 0 [''backend-1'']"
  let ?b = "buffer sPresent"
  have c: "client sPresent = Some ?c" and b: "?b \<noteq> []" and n: "length ?b = 2"
    and f: "failedBuffer sPresent = []" and t: "trace sPresent = []"
    by (simp_all add: sPresent_def)
  note thm1 = worker_iter_retry [OF c refl b, of envBulkFails]
  have fails: "\<forall>j<10. elastic_BulkDo envBulkFails
      (retried envBulkFails ?c ?b j (trace sPresent @ [Sleep 2])) ?c ?b \<noteq> None"
    by (simp add: envBulkFails_def)
  with thm1 obtain e where 1: "worker_iter envBulkFails sPresent =
      sPresent\<lparr>buffer := [], failedBuffer := failedBuffer sPresent @ ?b,
        trace := retried envBulkFails ?c ?b 10 (trace sPresent @ [Sleep 2]) @
          [LogError ''search: Bulk insert failed, moving to failed buffer'' e]\<rparr>"
    by blast
  have len: "length (bulks (trace (worker_iter envBulkFails sPresent))) = 10"
    by (simp add: 1 t bulks_append bulks_retried bulks_Cons bulks_Nil)
  note thm2 = worker_iter_retry [OF c refl b, of envFlaky]
  have r0: "retried envFlaky ?c ?b 0 (trace sPresent @ [Sleep 2]) = [Sleep 2]"
    by (simp add: t)
  have r1: "retried envFlaky ?c ?b (Suc 0) (trace sPresent @ [Sleep 2]) =
      [Sleep 2, BulkDo ?c ?b (Some (LibError ''timeout'')), Sleep 1]"
    by (simp add: t envFlaky_def bulks_def)
  have r2: "retried envFlaky ?c ?b 2 (trace sPresent @ [Sleep 2]) =
      [Sleep 2, BulkDo ?c ?b (Some (LibError ''timeout'')), Sleep 1,
       BulkDo ?c ?b (Some (LibError ''timeout'')), Sleep 1]"
    by (simp add: t envFlaky_def bulks_def numeral_2_eq_2)
  have "\<forall>j<2. elastic_BulkDo envFlaky
      (retried envFlaky ?c ?b j (trace sPresent @ [Sleep 2])) ?c ?b \<noteq> None"
    using r0 r1 by (auto simp: less_2_cases_iff envFlaky_def bulks_def)
  moreover have "elastic_BulkDo envFlaky
      (retried envFlaky ?c ?b 2 (trace sPresent @ [Sleep 2])) ?c ?b = None"
    unfolding r2 by (simp add: envFlaky_def bulks_def)
  moreover have "(2::nat) < 10" by simp
  ultimately have 2: "worker_iter envFlaky sPresent =
      sPresent\<lparr>buffer := [],
        trace := retried envFlaky ?c ?b 2 (trace sPresent @ [Sleep 2]) @ [BulkDo ?c ?b None]\<rparr>"
    using thm2 by blast
  let ?s1 = "worker_iter envBulkFails sPresent"
  let ?s2 = "Index envOk ''zero-requests'' ''request'' 5 ?s1"
  have o: "oids sPresent = 2"
    by (simp add: sPresent_def)
  have s2: "client ?s2 = Some ?c"
    "buffer ?s2 = [\<lparr>rIndex = ''zero-requests'', rType = ''request'', rId = ''aa'', rDoc = 5\<rparr>]"
    "failedBuffer ?s2 = ?b"
    unfolding 1 by (simp_all add: Index_def c f o envOk_def numeral_2_eq_2)
  have "buffer ?s2 \<noteq> []" and "elastic_BulkDo envOk (trace ?s2 @ [Sleep 2]) ?c (buffer ?s2) = None"
    unfolding s2 by (simp_all add: envOk_def)
  from worker_iter_ok [OF s2(1) this]
  have "worker_iter envOk ?s2 =
      ?s2\<lparr>buffer := [], trace := trace ?s2 @ [Sleep 2, BulkDo ?c (buffer ?s2) None]\<rparr>" .
  then have 3: "failedBuffer (worker_iter envOk ?s2) = ?b" "buffer (worker_iter envOk ?s2) = []"
    "last (trace (worker_iter envOk ?s2)) =
       BulkDo ?c [\<lparr>rIndex = ''zero-requests'', rType = ''request'', rId = ''aa'', rDoc = 5\<rparr>] None"
    by (simp_all add: s2)
  have "failedBuffer ?s1 = ?b" "buffer ?s1 = []" "client ?s1 = client sPresent"
    "failedBuffer (worker_iter envFlaky sPresent) = []"
    "trace (worker_iter envFlaky sPresent) =
       [Sleep 2, BulkDo ?c ?b (Some (LibError ''timeout'')), Sleep 1,
        BulkDo ?c ?b (Some (LibError ''timeout'')), Sleep 1, BulkDo ?c ?b None]"
    using f by (simp_all add: 1 2 r2)
  with c n f len 3 show ?thesis
    by blast
qed

subsection \<open>update\<close>

lemma newClient_cases:
  "newClient env addrs s =
     (if addrs = [] then ((None, None), s)
      else case elastic_NewClient env (trace s) addrs of
        Some err \<Rightarrow>
          ((None, Some (DatabaseError (Wrap err ''search: Failed to create elastic client''))),
           s\<lparr>trace := trace s @ [NewClient addrs (Some err)]\<rparr>)
      | None \<Rightarrow>
          ((Some (Client (length (trace s)) addrs), None),
           s\<lparr>trace := trace s @ [NewClient addrs None]\<rparr>))"
  by (simp add: newClient_def emit_def Let_def split: option.splits)

lemma putIndex_cases:
  "putIndex env c index typ mappings s =
     (case elastic_IndexExists env (trace s) c index of
        Inl err \<Rightarrow>
          (Some (DatabaseError (Wrap err ''search: Failed to check elastic index'')),
           s\<lparr>trace := trace s @ [IndexExists c index (Inl err)]\<rparr>)
      | Inr True \<Rightarrow> (None, s\<lparr>trace := trace s @ [IndexExists c index (Inr True)]\<rparr>)
      | Inr False \<Rightarrow>
          (case elastic_CreateIndex env (trace s @ [IndexExists c index (Inr False)]) c index
                  (indexBody typ mappings) of
             Some err \<Rightarrow>
               (Some (DatabaseError (Wrap err ''search: Failed to create elastic index'')),
                s\<lparr>trace := trace s @ [IndexExists c index (Inr False),
                   CreateIndex c index (indexBody typ mappings) (Some err)]\<rparr>)
           | None \<Rightarrow>
               (None,
                s\<lparr>trace := trace s @ [IndexExists c index (Inr False),
                   CreateIndex c index (indexBody typ mappings) None]\<rparr>)))"
  by (simp add: putIndex_def emit_def Let_def split: sum.splits bool.splits option.splits)

text \<open>
  Claim C4. \<open>update\<close> is all-or-nothing. With an empty address list it sets the client
  to nil and returns no error, calling nothing. When \<open>elastic.NewClient\<close> fails, when the
  existence check fails, or when the index is missing and its creation fails, it returns
  the wrapped error and the client is nil afterwards, whatever it was before; the client
  just built is kept nowhere. The client is set after the call exactly when construction
  succeeded and the index either existed or was created, and then it is the client just
  built and no error is returned; whenever an error is returned the client is nil.
\<close>

theorem update_all_or_nothing:
  "let c = Client (length (trace s)) addrs;
       h1 = trace s @ [NewClient addrs None];
       h2 = h1 @ [IndexExists c ''zero-requests'' (Inr False)];
       body = indexBody ''request'' catalog
   in
    (addrs = [] \<longrightarrow> update env addrs s = (None, s\<lparr>client := None\<rparr>)) \<and>
    (\<forall>e. addrs \<noteq> [] \<and> elastic_NewClient env (trace s) addrs = Some e \<longrightarrow>
       update env addrs s =
         (Some (DatabaseError (Wrap e ''search: Failed to create elastic client'')),
          s\<lparr>client := None, trace := trace s @ [NewClient addrs (Some e)]\<rparr>)) \<and>
    (\<forall>e. addrs \<noteq> [] \<and> elastic_NewClient env (trace s) addrs = None \<and>
         elastic_IndexExists env h1 c ''zero-requests'' = Inl e \<longrightarrow>
       update env addrs s =
         (Some (DatabaseError (Wrap e ''search: Failed to check elastic index'')),
          s\<lparr>client := None, trace := h1 @ [IndexExists c ''zero-requests'' (Inl e)]\<rparr>)) \<and>
    (\<forall>e. addrs \<noteq> [] \<and> elastic_NewClient env (trace s) addrs = None \<and>
         elastic_IndexExists env h1 c ''zero-requests'' = Inr False \<and>
         elastic_CreateIndex env h2 c ''zero-requests'' body = Some e \<longrightarrow>
       update env addrs s =
         (Some (DatabaseError (Wrap e ''search: Failed to create elastic index'')),
          s\<lparr>client := None, trace := h2 @ [CreateIndex c ''zero-requests'' body (Some e)]\<rparr>)) \<and>
    (client (snd (update env addrs s)) \<noteq> None \<longleftrightarrow>
       addrs \<noteq> [] \<and> elastic_NewClient env (trace s) addrs = None \<and>
       (elastic_IndexExists env h1 c ''zero-requests'' = Inr True \<or>
        elastic_IndexExists env h1 c ''zero-requests'' = Inr False \<and>
        elastic_CreateIndex env h2 c ''zero-requests'' body = None)) \<and>
    (client (snd (update env addrs s)) \<noteq> None \<longrightarrow>
       fst (update env addrs s) = None \<and> client (snd (update env addrs s)) = Some c) \<and>
    (fst (update env addrs s) \<noteq> None \<longrightarrow> client (snd (update env addrs s)) = None)"
  unfolding Let_def
  by (auto simp: update_def newClient_cases putIndex_cases
      split: option.splits sum.splits bool.splits)


theorem update_all_or_nothing_witness:
  "client sPresent \<noteq> None \<and>
   update envOk [] sPresent = (None, sPresent\<lparr>client := None\<rparr>) \<and>
   fst (update envNewClientFails [''backend-2''] sPresent) =
     Some (DatabaseError (Wrap (LibError ''no route'') ''search: Failed to create elastic client'')) \<and>
   client (snd (update envNewClientFails [''backend-2''] sPresent)) = None \<and>
   fst (update envExistsFails [''backend-2''] sPresent) =
     Some (DatabaseError (Wrap (LibError ''timeout'') ''search: Failed to check elastic index'')) \<and>
   client (snd (update envExistsFails [''backend-2''] sPresent)) = None \<and>
   fst (update envCreateFails [''backend-2''] sPresent) =
     Some (DatabaseError (Wrap (LibError ''refused'') ''search: Failed to create elastic index'')) \<and>
   client (snd (update envCreateFails [''backend-2''] sPresent)) = None \<and>
   update envIndexed [''backend-2''] sAbsent =
     (None, sAbsent\<lparr>client := Some (Client 0 [''backend-2'']),
        trace := [NewClient [''backend-2''] None,
                  IndexExists (Client 0 [''backend-2'']) ''zero-requests'' (Inr True)]\<rparr>) \<and>
   client (snd (update envOk [''backend-2''] sAbsent)) = Some (Client 0 [''backend-2''])"
proof -
  have p: "client sPresent \<noteq> None" and t: "trace sPresent = []" "trace sAbsent = []"
    by (simp_all add: sPresent_def sAbsent_def)
  have 1: "update envOk [] sPresent = (None, sPresent\<lparr>client := None\<rparr>)"
    using update_all_or_nothing [where addrs = "[]" and s = sPresent and env = envOk]
    by (simp add: Let_def)
  have 2: "update envNewClientFails [''backend-2''] sPresent =
      (Some (DatabaseError (Wrap (LibError ''no route'') ''search: Failed to create elastic client'')),
       sPresent\<lparr>client := None,
         trace := trace sPresent @ [NewClient [''backend-2''] (Some (LibError ''no route''))]\<rparr>)"
    using update_all_or_nothing
      [where addrs = "[''backend-2'']" and s = sPresent and env = envNewClientFails]
    by (simp add: Let_def envNewClientFails_def)
  have 3: "update envExistsFails [''backend-2''] sPresent =
      (Some (DatabaseError (Wrap (LibError ''timeout'') ''search: Failed to check elastic index'')),
       sPresent\<lparr>client := None,
         trace := (trace sPresent @ [NewClient [''backend-2''] None]) @
           [IndexExists (Client (length (trace sPresent)) [''backend-2'']) ''zero-requests''
              (Inl (LibError ''timeout''))]\<rparr>)"
    using update_all_or_nothing
      [where addrs = "[''backend-2'']" and s = sPresent and env = envExistsFails]
    by (simp add: Let_def envExistsFails_def envOk_def)
  have 4: "update envCreateFails [''backend-2''] sPresent =
      (Some (DatabaseError (Wrap (LibError ''refused'') ''search: Failed to create elastic index'')),
       sPresent\<lparr>client := None,
         trace := ((trace sPresent @ [NewClient [''backend-2''] None]) @
           [IndexExists (Client (length (trace sPresent)) [''backend-2'']) ''zero-requests'' (Inr False)]) @
           [CreateIndex (Client (length (trace sPresent)) [''backend-2'']) ''zero-requests''
              (indexBody ''request'' catalog) (Some (LibError ''refused''))]\<rparr>)"
    using update_all_or_nothing
      [where addrs = "[''backend-2'']" and s = sPresent and env = envCreateFails]
    by (simp add: Let_def envCreateFails_def envOk_def)
  have 5: "fst (update envIndexed [''backend-2''] sAbsent) = None \<and>
      client (snd (update envIndexed [''backend-2''] sAbsent)) = Some (Client 0 [''backend-2''])"
    using update_all_or_nothing
      [where addrs = "[''backend-2'']" and s = sAbsent and env = envIndexed]
    by (simp add: Let_def envIndexed_def envOk_def t)
  have 6: "client (snd (update envOk [''backend-2''] sAbsent)) = Some (Client 0 [''backend-2''])"
    using update_all_or_nothing
      [where addrs = "[''backend-2'']" and s = sAbsent and env = envOk]
    by (simp add: Let_def envOk_def t)
  have 7: "update envIndexed [''backend-2''] sAbsent =
     (None, sAbsent\<lparr>client := Some (Client 0 [''backend-2'']),
        trace := [NewClient [''backend-2''] None,
                  IndexExists (Client 0 [''backend-2'']) ''zero-requests'' (Inr True)]\<rparr>)"
    by (simp add: update_def newClient_cases putIndex_cases envIndexed_def envOk_def t)
  show ?thesis
    using p 1 5 6 by (simp add: 2 3 4 7)
qed

subsection \<open>putIndex and the catalog\<close>

lemma properties_lookup_acc:
  "map_of (foldl (\<lambda>props m. AList.update (mField m) (property m) props) acc ms) f =
     (case find (\<lambda>m. mField m = f) (rev ms) of
        Some m \<Rightarrow> Some (property m)
      | None \<Rightarrow> map_of acc f)"
  by (induction ms rule: rev_induct) (simp_all add: update_conv')

lemma properties_lookup:
  "map_of (properties ms) f = map_option property (find (\<lambda>m. mField m = f) (rev ms))"
  by (simp add: properties_def properties_lookup_acc split: option.splits)

lemma catalog_body:
  "indexBody ''request'' catalog =
     JObject [(''mappings'', JObject [(''request'', JObject [(''properties'', JObject
       [(''user'', JObject [(''type'', JString ''keyword''), (''store'', JBool False),
                            (''index'', JString ''analyzed'')]),
        (''session'', JObject [(''type'', JString ''keyword''), (''store'', JBool False),
                               (''index'', JString ''analyzed'')]),
        (''address'', JObject [(''type'', JString ''ip''), (''store'', JBool False),
                               (''index'', JString ''analyzed'')]),
        (''timestamp'', JObject [(''type'', JString ''date''), (''store'', JBool False),
                                 (''index'', JString ''analyzed'')]),
        (''scheme'', JObject [(''type'', JString ''keyword''), (''store'', JBool False),
                              (''index'', JString ''analyzed'')]),
        (''host'', JObject [(''type'', JString ''keyword''), (''store'', JBool False),
                            (''index'', JString ''analyzed'')]),
        (''path'', JObject [(''type'', JString ''keyword''), (''store'', JBool False),
                            (''index'', JString ''analyzed'')]),
        (''query'', JObject [(''enabled'', JBool False)]),
        (''header'', JObject [(''enabled'', JBool False)]),
        (''body'', JObject [(''type'', JString ''text''), (''store'', JBool False),
                            (''index'', JString ''no'')])])])])]"
  by (simp add: indexBody_def catalog_def properties_def property_def)

lemma creations_append: "creations (h @ h') = creations h @ creations h'"
  by (simp add: creations_def)

lemma update_trace:
  "\<exists>evs. trace (snd (update env addrs s)) = trace s @ evs \<and>
         (creations evs = [] \<or>
          creations evs = [(Client (length (trace s)) addrs, ''zero-requests'',
                            indexBody ''request'' catalog)])"
  by (auto simp: update_def newClient_cases putIndex_cases creations_def
      split: option.splits sum.splits bool.splits)


text \<open>
  Claim C7. The body that \<open>putIndex\<close> builds for the catalog of \<open>update\<close> and the
  type \<open>request\<close> is \<open>{"mappings": {"request": {"properties": ...}}}\<close> with exactly the
  ten fields user, session, address, timestamp, scheme, host, path (keyword, ip, date),
  query and header (object) and body (text, index "no"). A mapping of type \<open>object\<close>
  becomes \<open>{"enabled": false}\<close> whatever its store and index flags, any other mapping
  becomes its type, store and index; in the properties of any mapping list a field name
  holds the entry of the last mapping of that name. Every index creation that \<open>update\<close>
  issues is for index \<open>zero-requests\<close> with that body.
\<close>

theorem catalog_payload:
  "indexBody ''request'' catalog =
     JObject [(''mappings'', JObject [(''request'', JObject [(''properties'', JObject
       [(''user'', JObject [(''type'', JString ''keyword''), (''store'', JBool False),
                            (''index'', JString ''analyzed'')]),
        (''session'', JObject [(''type'', JString ''keyword''), (''store'', JBool False),
                               (''index'', JString ''analyzed'')]),
        (''address'', JObject [(''type'', JString ''ip''), (''store'', JBool False),
                               (''index'', JString ''analyzed'')]),
        (''timestamp'', JObject [(''type'', JString ''date''), (''store'', JBool False),
                                 (''index'', JString ''analyzed'')]),
        (''scheme'', JObject [(''type'', JString ''keyword''), (''store'', JBool False),
                              (''index'', JString ''analyzed'')]),
        (''host'', JObject [(''type'', JString ''keyword''), (''store'', JBool False),
                            (''index'', JString ''analyzed'')]),
        (''path'', JObject [(''type'', JString ''keyword''), (''store'', JBool False),
                            (''index'', JString ''analyzed'')]),
        (''query'', JObject [(''enabled'', JBool False)]),
        (''header'', JObject [(''enabled'', JBool False)]),
        (''body'', JObject [(''type'', JString ''text''), (''store'', JBool False),
                            (''index'', JString ''no'')])])])])] \<and>
   map fst (properties catalog) =
     [''user'', ''session'', ''address'', ''timestamp'', ''scheme'', ''host'', ''path'',
      ''query'', ''header'', ''body''] \<and>
   (\<forall>m. mType m = ''object'' \<longrightarrow> property m = JObject [(''enabled'', JBool False)]) \<and>
   (\<forall>m. mType m \<noteq> ''object'' \<longrightarrow>
      property m = JObject [(''type'', JString (mType m)), (''store'', JBool (mStore m)),
                            (''index'', JString (mIndex m))]) \<and>
   (\<forall>ms f. map_of (properties ms) f =
      map_option property (find (\<lambda>m. mField m = f) (rev ms))) \<and>
   (\<forall>(env :: 'd env) addrs s.
      set (creations (trace (snd (update env addrs s)))) \<subseteq>
        set (creations (trace s)) \<union>
        {(Client (length (trace s)) addrs, ''zero-requests'', indexBody ''request'' catalog)})"
proof (intro conjI allI impI)
  show "map fst (properties catalog) =
     [''user'', ''session'', ''address'', ''timestamp'', ''scheme'', ''host'', ''path'',
      ''query'', ''header'', ''body'']"
    by (simp add: catalog_def properties_def)
next
  fix env :: "'d env" and addrs s
  obtain evs where "trace (snd (update env addrs s)) = trace s @ evs"
    "creations evs = [] \<or>
     creations evs = [(Client (length (trace s)) addrs, ''zero-requests'',
                       indexBody ''request'' catalog)]"
    using update_trace [of env addrs s] by blast
  then show "set (creations (trace (snd (update env addrs s)))) \<subseteq>
      set (creations (trace s)) \<union>
      {(Client (length (trace s)) addrs, ''zero-requests'', indexBody ''request'' catalog)}"
    by (auto simp: creations_append)
qed (simp_all add: catalog_body properties_lookup property_def)

theorem catalog_payload_witness:
  "mType \<lparr>mField = ''query'', mType = ''object'', mStore = True, mIndex = ''analyzed''\<rparr> = ''object'' \<and>
   property \<lparr>mField = ''query'', mType = ''object'', mStore = True, mIndex = ''analyzed''\<rparr> =
     JObject [(''enabled'', JBool False)] \<and>
   property \<lparr>mField = ''body'', mType = ''text'', mStore = True, mIndex = ''no''\<rparr> =
     JObject [(''type'', JString ''text''), (''store'', JBool True), (''index'', JString ''no'')] \<and>
   map_of (properties catalog) ''header'' = Some (JObject [(''enabled'', JBool False)]) \<and>
   map_of (properties catalog) ''address'' =
     Some (JObject [(''type'', JString ''ip''), (''store'', JBool False),
                    (''index'', JString ''analyzed'')]) \<and>
   map_of (properties catalog) ''cookie'' = None"
proof -
  let ?q = "\<lparr>mField = ''query'', mType = ''object'', mStore = True, mIndex = ''analyzed''\<rparr>"
  let ?b = "\<lparr>mField = ''body'', mType = ''text'', mStore = True, mIndex = ''no''\<rparr>"
  note payload = catalog_payload
  have q: "mType ?q = ''object''" and b: "mType ?b \<noteq> ''object''"
    by simp_all
  from payload q have 1: "property ?q = JObject [(''enabled'', JBool False)]"
    by blast
  from payload b have 2: "property ?b =
      JObject [(''type'', JString (mType ?b)), (''store'', JBool (mStore ?b)),
               (''index'', JString (mIndex ?b))]"
    by blast
  from payload have look: "\<And>f. map_of (properties catalog) f =
      map_option property (find (\<lambda>m. mField m = f) (rev catalog))"
    by blast
  have 3: "map_of (properties catalog) ''header'' = Some (JObject [(''enabled'', JBool False)])"
    unfolding look by (simp add: catalog_def property_def)
  have 4: "map_of (properties catalog) ''address'' =
     Some (JObject [(''type'', JString ''ip''), (''store'', JBool False),
                    (''index'', JString ''analyzed'')])"
    unfolding look by (simp add: catalog_def property_def)
  have 5: "map_of (properties catalog) ''cookie'' = None"
    unfolding look by (simp add: catalog_def)
  from 1 2 3 4 5 show ?thesis
    by simp
qed


subsection \<open>Index creation in a run\<close>

lemma creationsOf_append:
  "creationsOf c index (h @ h') = creationsOf c index h + creationsOf c index h'"
  by (simp add: creationsOf_def creations_append)

lemma constructions_append: "constructions (h @ h') = constructions h @ constructions h'"
  by (simp add: constructions_def)

lemma worker_iter_trace:
  "\<exists>evs. trace (worker_iter env s) = trace s @ evs \<and> creations evs = [] \<and>
         constructions evs = []"
proof (cases "client s = None \<or> buffer s = []")
  case True
  then have "trace (worker_iter env s) = trace s @ [Sleep 2]"
    by (simp add: worker_iter_idle)
  then show ?thesis
    by (intro exI [of _ "[Sleep 2]"]) (simp add: creations_def constructions_def)
next
  case False
  then obtain c where c: "client s = Some c" and b: "buffer s \<noteq> []"
    by auto
  let ?s1 = "s\<lparr>trace := trace s @ [Sleep 2], buffer := []\<rparr>"
  obtain evs where evs: "snd (bulkLoop env c (buffer s) 0 None ?s1) = ?s1\<lparr>trace := trace ?s1 @ evs\<rparr>"
    "creations evs = []" "constructions evs = []"
    using bulkLoop_shape [of env c "buffer s" 0 None ?s1] by blast
  show ?thesis
  proof (cases "bulkLoop env c (buffer s) 0 None ?s1")
    case (Pair r s2)
    show ?thesis
    proof (cases r)
      case None
      with Pair evs have "trace (worker_iter env s) = trace s @ (Sleep 2 # evs)"
        by (simp add: worker_iter_unfold [OF c b])
      with evs show ?thesis
        by (intro exI [of _ "Sleep 2 # evs"]) (simp add: creations_def constructions_def)
    next
      case (Some e)
      let ?log = "LogError ''search: Bulk insert failed, moving to failed buffer'' e"
      from Some Pair evs have "trace (worker_iter env s) = trace s @ (Sleep 2 # evs @ [?log])"
        by (simp add: worker_iter_unfold [OF c b])
      with evs show ?thesis
        by (intro exI [of _ "Sleep 2 # evs @ [?log]"]) (simp add: creations_def constructions_def)
    qed
  qed
qed

lemma watchSearch_iter_trace:
  "\<exists>evs. trace (snd (watchSearch_iter env addrs (hash, s))) = trace s @ evs \<and>
         (creations evs = [] \<or>
          creations evs = [(Client (length (trace s)) addrs, ''zero-requests'',
                            indexBody ''request'' catalog)])"
proof (cases "hash = hashAddresses env addrs")
  case True
  then have "trace (snd (watchSearch_iter env addrs (hash, s))) = trace s @ [Sleep 1]"
    by (simp add: watchSearch_iter_def emit_def)
  then show ?thesis
    by (intro exI [of _ "[Sleep 1]"]) (simp add: creations_def)
next
  case False
  obtain evs where evs: "trace (snd (update env addrs s)) = trace s @ evs"
    "creations evs = [] \<or>
     creations evs = [(Client (length (trace s)) addrs, ''zero-requests'',
                       indexBody ''request'' catalog)]"
    using update_trace [of env addrs s] by blast
  show ?thesis
  proof (cases "update env addrs s")
    case (Pair r s1)
    show ?thesis
    proof (cases r)
      case None
      with Pair False evs
      have "trace (snd (watchSearch_iter env addrs (hash, s))) = trace s @ (evs @ [Sleep 1])"
        by (simp add: watchSearch_iter_def emit_def)
      with evs(2) show ?thesis
        by (intro exI [of _ "evs @ [Sleep 1]"]) (simp add: creations_append, simp add: creations_def)
    next
      case (Some e)
      let ?log = "LogError ''search: Failed to update search indexes'' e"
      from Some Pair False evs
      have "trace (snd (watchSearch_iter env addrs (hash, s))) = trace s @ (evs @ [?log, Sleep 3])"
        by (simp add: watchSearch_iter_def emit_def)
      with evs(2) show ?thesis
        by (intro exI [of _ "evs @ [?log, Sleep 3]"])
          (simp add: creations_append, simp add: creations_def)
    qed
  qed
qed

lemma step_trace:
  "\<exists>evs addrs. trace (snd (step env (hash, s) a)) = trace s @ evs \<and>
         (creations evs = [] \<or>
          creations evs = [(Client (length (trace s)) addrs, ''zero-requests'',
                            indexBody ''request'' catalog)])"
proof (cases a)
  case (CallIndex i t d)
  then have "trace (snd (step env (hash, s) a)) = trace s @ []"
    by (simp add: Index_def split: option.splits)
  then show ?thesis
    by (intro exI [of _ "[]"]) (simp add: creations_def)
next
  case WorkerIter
  with worker_iter_trace [of env s] show ?thesis
    by auto
next
  case (WatchIter addrs)
  with watchSearch_iter_trace [of env addrs hash s] show ?thesis
    by auto
qed

lemma once_extend:
  assumes "once h"
    and "creations evs = [] \<or> creations evs = [(Client (length h) addrs, index, body)]"
  shows "once (h @ evs)"
proof (cases "creations evs = []")
  case True
  with assms(1) show ?thesis
    by (auto simp: once_def creations_append creationsOf_def)
next
  case False
  with assms(2) have new: "creations evs = [(Client (length h) addrs, index, body)]"
    by simp
  then have "evs \<noteq> []"
    by (auto simp: creations_def)
  then have len: "length h < length (h @ evs)"
    by simp
  have none: "creationsOf (Client (length h) addrs) i h = 0" for i
  proof -
    have "\<forall>x \<in> set (creations h). fst x \<noteq> Client (length h) addrs"
      using assms(1) by (fastforce simp: once_def)
    then show ?thesis
      by (auto simp: creationsOf_def filter_empty_conv)
  qed
  have "creationsOf c i (h @ evs) \<le> 1" for c i
  proof (cases "c = Client (length h) addrs")
    case True
    then show ?thesis
      using none [of i] by (simp add: creationsOf_append) (simp add: creationsOf_def new)
  next
    case False
    then have "creationsOf c i evs = 0"
      by (simp add: creationsOf_def new)
    with assms(1) show ?thesis
      by (simp add: creationsOf_append once_def)
  qed
  moreover have "\<forall>x \<in> set (creations (h @ evs)). stamp (fst x) < length (h @ evs)"
    using assms(1) len by (auto simp: once_def creations_append new)
  ultimately show ?thesis
    by (simp add: once_def)
qed

lemma run_once: "once (trace (snd hs)) \<Longrightarrow> once (trace (snd (run env acts hs)))"
proof (induction acts arbitrary: hs)
  case Nil
  then show ?case by (simp add: run_def)
next
  case (Cons a acts)
  obtain hash s where hs: "hs = (hash, s)"
    by (cases hs)
  obtain evs addrs where "trace (snd (step env (hash, s) a)) = trace s @ evs"
    "creations evs = [] \<or>
     creations evs = [(Client (length (trace s)) addrs, ''zero-requests'',
                       indexBody ''request'' catalog)]"
    using step_trace [of env hash s a] by blast
  with Cons.prems hs have "once (trace (snd (step env hs a)))"
    using once_extend [of "trace s" evs] by auto
  from Cons.IH [OF this] show ?case
    by (simp add: run_def)
qed

text \<open>
  Claim C8. \<open>putIndex\<close> first asks whether the index exists. When it does, \<open>putIndex\<close>
  returns no error and has called nothing else; when the check fails it returns the
  wrapped error and has called nothing else; only when the check reports the index
  missing does it issue one creation, right after the check. There is no call that
  changes the mappings of an index. In every run of the package from its start, each
  client object issues at most one creation for each index name.
\<close>

theorem putIndex_guard:
  "(elastic_IndexExists env (trace s) c index = Inr True \<longrightarrow>
      putIndex env c index typ ms s =
        (None, s\<lparr>trace := trace s @ [IndexExists c index (Inr True)]\<rparr>)) \<and>
   (\<forall>e. elastic_IndexExists env (trace s) c index = Inl e \<longrightarrow>
      putIndex env c index typ ms s =
        (Some (DatabaseError (Wrap e ''search: Failed to check elastic index'')),
         s\<lparr>trace := trace s @ [IndexExists c index (Inl e)]\<rparr>)) \<and>
   (elastic_IndexExists env (trace s) c index = Inr False \<longrightarrow>
      trace (snd (putIndex env c index typ ms s)) =
        trace s @ [IndexExists c index (Inr False),
          CreateIndex c index (indexBody typ ms)
            (elastic_CreateIndex env (trace s @ [IndexExists c index (Inr False)]) c index
               (indexBody typ ms))]) \<and>
   creationsOf c' index' (trace (snd (run env' acts (hashAddresses env' [], init)))) \<le> 1"
proof (intro conjI allI impI)
  have "once (trace (snd (hashAddresses env' [], init :: 'b state)))"
    by (simp add: once_def init_def creations_def creationsOf_def)
  from run_once [OF this, of env' acts]
  show "creationsOf c' index' (trace (snd (run env' acts (hashAddresses env' [], init)))) \<le> 1"
    by (simp add: once_def)
qed (simp_all add: putIndex_cases split: option.splits)

theorem putIndex_guard_witness:
  "putIndex envIndexed (Client 0 [''backend-1'']) ''zero-requests'' ''request'' catalog sAbsent =
     (None, sAbsent\<lparr>trace :=
        [IndexExists (Client 0 [''backend-1'']) ''zero-requests'' (Inr True)]\<rparr>) \<and>
   fst (putIndex envExistsFails (Client 0 [''backend-1'']) ''zero-requests'' ''request'' catalog sAbsent) =
     Some (DatabaseError (Wrap (LibError ''timeout'') ''search: Failed to check elastic index'')) \<and>
   trace (snd (putIndex envExistsFails (Client 0 [''backend-1'']) ''zero-requests'' ''request'' catalog sAbsent)) =
     [IndexExists (Client 0 [''backend-1'']) ''zero-requests'' (Inl (LibError ''timeout''))] \<and>
   trace (snd (putIndex envOk (Client 0 [''backend-1'']) ''zero-requests'' ''request'' catalog sAbsent)) =
     [IndexExists (Client 0 [''backend-1'']) ''zero-requests'' (Inr False),
      CreateIndex (Client 0 [''backend-1'']) ''zero-requests'' (indexBody ''request'' catalog) None]"
proof -
  let ?c = "Client 0 [''backend-1'']"
  have t: "trace sAbsent = []"
    by (simp add: sAbsent_def sPresent_def)
  have 1: "putIndex envIndexed ?c ''zero-requests'' ''request'' catalog sAbsent =
      (None, sAbsent\<lparr>trace := trace sAbsent @ [IndexExists ?c ''zero-requests'' (Inr True)]\<rparr>)"
    using putIndex_guard [of envIndexed sAbsent ?c "''zero-requests''" "''request''" catalog
        ?c "''zero-requests''" envOk "[]"]
    by (simp add: envIndexed_def)
  have 2: "putIndex envExistsFails ?c ''zero-requests'' ''request'' catalog sAbsent =
      (Some (DatabaseError (Wrap (LibError ''timeout'') ''search: Failed to check elastic index'')),
       sAbsent\<lparr>trace := trace sAbsent @
         [IndexExists ?c ''zero-requests'' (Inl (LibError ''timeout''))]\<rparr>)"
    using putIndex_guard [of envExistsFails sAbsent ?c "''zero-requests''" "''request''" catalog
        ?c "''zero-requests''" envOk "[]"]
    by (simp add: envExistsFails_def)
  have 3: "trace (snd (putIndex envOk ?c ''zero-requests'' ''request'' catalog sAbsent)) =
      trace sAbsent @ [IndexExists ?c ''zero-requests'' (Inr False),
        CreateIndex ?c ''zero-requests'' (indexBody ''request'' catalog)
          (elastic_CreateIndex envOk (trace sAbsent @ [IndexExists ?c ''zero-requests'' (Inr False)])
             ?c ''zero-requests'' (indexBody ''request'' catalog))]"
    using putIndex_guard [of envOk sAbsent ?c "''zero-requests''" "''request''" catalog
        ?c "''zero-requests''" envOk "[]"]
    by (simp add: envOk_def)
  show ?thesis
    by (simp add: 1 2 3 t) (simp add: envOk_def)
qed

subsection \<open>watchSearch\<close>

lemma watchSearch_iter_same:
  "hash = hashAddresses env addrs \<Longrightarrow>
   watchSearch_iter env addrs (hash, s) = (hash, s\<lparr>trace := trace s @ [Sleep 1]\<rparr>)"
  by (simp add: watchSearch_iter_def emit_def)

lemma watchSearch_iter_differs:
  "hash \<noteq> hashAddresses env addrs \<Longrightarrow>
   watchSearch_iter env addrs (hash, s) =
     (case update env addrs s of
        (Some err, s1) \<Rightarrow>
          (hash, s1\<lparr>trace := trace s1 @
             [LogError ''search: Failed to update search indexes'' err, Sleep 3]\<rparr>)
      | (None, s1) \<Rightarrow> (hashAddresses env addrs, s1\<lparr>trace := trace s1 @ [Sleep 1]\<rparr>))"
  by (simp add: watchSearch_iter_def emit_def split: prod.splits option.splits)

lemma run_same:
  "hash = hashAddresses env addrs \<Longrightarrow>
   run env (map WatchIter (replicate n addrs)) (hash, s) =
     (hash, s\<lparr>trace := trace s @ replicate n (Sleep 1)\<rparr>)"
proof (induction n arbitrary: s)
  case 0
  then show ?case by (simp add: run_def)
next
  case (Suc n)
  from Suc.IH [OF Suc.prems, of "s\<lparr>trace := trace s @ [Sleep 1]\<rparr>"] Suc.prems
  show ?case
    by (simp add: run_def watchSearch_iter_same replicate_app_Cons_same)
qed

lemma update_constructions:
  "constructions (trace (snd (update env addrs s))) =
     constructions (trace s) @ (if addrs = [] then [] else [addrs])"
  by (auto simp: update_def newClient_cases putIndex_cases constructions_def
      split: option.splits sum.splits bool.splits)

text \<open>
  Claim C6, as amended. An iteration of \<open>watchSearch\<close> whose digest of the configured
  addresses equals \<open>hash\<close> only sleeps; one whose digest differs calls \<open>update\<close> once. When
  that call succeeds the new digest becomes \<open>hash\<close>; when it fails \<open>hash\<close> is kept, the error
  is logged and the iteration sleeps three seconds, so the next iteration with the same
  addresses calls \<open>update\<close> again. Every iteration whose digest differs and whose address
  list is not empty makes exactly one client construction. The loop starts with the
  digest of no addresses. Once a call of \<open>update\<close> succeeded, further iterations with
  the same address list do nothing but sleep: over all of them there is at most one
  client construction and at most one index creation.
\<close>

theorem watchSearch_iter_attempts:
  "(hash = hashAddresses env addrs \<longrightarrow>
      watchSearch_iter env addrs (hash, s) = (hash, s\<lparr>trace := trace s @ [Sleep 1]\<rparr>)) \<and>
   (hash \<noteq> hashAddresses env addrs \<and> fst (update env addrs s) = None \<longrightarrow>
      watchSearch_iter env addrs (hash, s) =
        (hashAddresses env addrs,
         (snd (update env addrs s))\<lparr>trace := trace (snd (update env addrs s)) @ [Sleep 1]\<rparr>)) \<and>
   (\<forall>e. hash \<noteq> hashAddresses env addrs \<and> fst (update env addrs s) = Some e \<longrightarrow>
      watchSearch_iter env addrs (hash, s) =
        (hash,
         (snd (update env addrs s))\<lparr>trace := trace (snd (update env addrs s)) @
            [LogError ''search: Failed to update search indexes'' e, Sleep 3]\<rparr>)) \<and>
   (hash \<noteq> hashAddresses env addrs \<and> addrs \<noteq> [] \<longrightarrow>
      constructions (trace (snd (watchSearch_iter env addrs (hash, s)))) =
        constructions (trace s) @ [addrs]) \<and>
   watchSearch env [] s = (hashAddresses env [], s) \<and>
   (hash = hashAddresses env addrs \<longrightarrow>
      run env (map WatchIter (replicate n addrs)) (hash, s) =
        (hash, s\<lparr>trace := trace s @ replicate n (Sleep 1)\<rparr>)) \<and>
   (hash \<noteq> hashAddresses env addrs \<and> fst (update env addrs s) = None \<longrightarrow>
      run env (map WatchIter (replicate (Suc n) addrs)) (hash, s) =
        (hashAddresses env addrs,
         (snd (update env addrs s))\<lparr>trace := trace (snd (update env addrs s)) @
            replicate (Suc n) (Sleep 1)\<rparr>) \<and>
      length (constructions (trace (snd (run env (map WatchIter (replicate (Suc n) addrs)) (hash, s)))))
        \<le> length (constructions (trace s)) + 1 \<and>
      length (creations (trace (snd (run env (map WatchIter (replicate (Suc n) addrs)) (hash, s)))))
        \<le> length (creations (trace s)) + 1)"
proof (intro conjI allI impI)
  assume "hash \<noteq> hashAddresses env addrs \<and> fst (update env addrs s) = None"
  then have d: "hash \<noteq> hashAddresses env addrs" and ok: "fst (update env addrs s) = None"
    by simp_all
  let ?s1 = "snd (update env addrs s)"
  have it: "watchSearch_iter env addrs (hash, s) =
      (hashAddresses env addrs, ?s1\<lparr>trace := trace ?s1 @ [Sleep 1]\<rparr>)"
    using ok by (cases "update env addrs s") (simp add: watchSearch_iter_differs [OF d])
  have "run env (map WatchIter (replicate (Suc n) addrs)) (hash, s) =
      run env (map WatchIter (replicate n addrs)) (watchSearch_iter env addrs (hash, s))"
    by (simp add: run_def)
  also have "\<dots> = (hashAddresses env addrs,
      ?s1\<lparr>trace := trace ?s1 @ replicate (Suc n) (Sleep 1)\<rparr>)"
    unfolding it using run_same [of "hashAddresses env addrs" env addrs n "?s1\<lparr>trace := trace ?s1 @ [Sleep 1]\<rparr>"]
    by (simp add: replicate_app_Cons_same)
  finally show r: "run env (map WatchIter (replicate (Suc n) addrs)) (hash, s) =
      (hashAddresses env addrs, ?s1\<lparr>trace := trace ?s1 @ replicate (Suc n) (Sleep 1)\<rparr>)" .
  have sl: "constructions (replicate k (Sleep m :: 'a event)) = []"
    "creations (replicate k (Sleep m :: 'a event)) = []" for k m
    by (induction k) (simp_all add: constructions_def creations_def)
  show "length (constructions (trace (snd (run env (map WatchIter (replicate (Suc n) addrs)) (hash, s)))))
      \<le> length (constructions (trace s)) + 1"
    unfolding r by (simp add: constructions_append sl update_constructions del: replicate_Suc)
  obtain evs where "trace ?s1 = trace s @ evs"
    "creations evs = [] \<or>
     creations evs = [(Client (length (trace s)) addrs, ''zero-requests'',
                       indexBody ''request'' catalog)]"
    using update_trace [of env addrs s] by blast
  then show "length (creations (trace (snd (run env (map WatchIter (replicate (Suc n) addrs)) (hash, s)))))
      \<le> length (creations (trace s)) + 1"
    unfolding r by (auto simp: creations_append sl simp del: replicate_Suc)
next
  assume "hash \<noteq> hashAddresses env addrs \<and> addrs \<noteq> []"
  then have d: "hash \<noteq> hashAddresses env addrs" and a: "addrs \<noteq> []"
    by simp_all
  show "constructions (trace (snd (watchSearch_iter env addrs (hash, s)))) =
      constructions (trace s) @ [addrs]"
    using update_constructions [of env addrs s] a
    by (cases "update env addrs s")
      (auto simp: watchSearch_iter_differs [OF d] constructions_append constructions_def
        split: option.splits)
next
  show "watchSearch env [] s = (hashAddresses env [], s)"
    by (simp add: watchSearch_def run_def)
next
  assume "hash = hashAddresses env addrs"
  then show "run env (map WatchIter (replicate n addrs)) (hash, s) =
      (hash, s\<lparr>trace := trace s @ replicate n (Sleep 1)\<rparr>)"
    by (rule run_same)
qed (auto simp: watchSearch_iter_same watchSearch_iter_differs split: prod.splits)

theorem watchSearch_iter_attempts_witness:
  "hashAddresses envOk [] \<noteq> hashAddresses envOk [''a''] \<and>
   fst (watchSearch_iter envOk [''a''] (hashAddresses envOk [], init)) = hashAddresses envOk [''a''] \<and>
   client (snd (watchSearch_iter envOk [''a''] (hashAddresses envOk [], init))) =
     Some (Client 0 [''a'']) \<and>
   fst (watchSearch_iter envCreateFails [''a''] (hashAddresses envCreateFails [], init)) =
     hashAddresses envCreateFails [] \<and>
   client (snd (watchSearch_iter envCreateFails [''a''] (hashAddresses envCreateFails [], init))) = None \<and>
   constructions (trace (snd (watchSearch_iter envCreateFails [''a'']
     (hashAddresses envCreateFails [], init)))) = [[''a'']] \<and>
   watchSearch_iter envOk [''a''] (hashAddresses envOk [''a''], sPresent) =
     (hashAddresses envOk [''a''], sPresent\<lparr>trace := [Sleep 1]\<rparr>) \<and>
   run envOk (map WatchIter (replicate 3 [''a''])) (hashAddresses envOk [''a''], sPresent) =
     (hashAddresses envOk [''a''], sPresent\<lparr>trace := [Sleep 1, Sleep 1, Sleep 1]\<rparr>)"
proof -
  let ?h0 = "hashAddresses envOk []" and ?h0' = "hashAddresses envCreateFails []"
  let ?ha = "hashAddresses envOk [''a'']"
  let ?e = "DatabaseError (Wrap (LibError ''refused'') ''search: Failed to create elastic index'')"
  have d: "?h0 \<noteq> ?ha" and d': "?h0' \<noteq> hashAddresses envCreateFails [''a'']"
    by (simp_all add: hashAddresses_concat envOk_def envCreateFails_def)
  have t: "trace sPresent = []"
    by (simp add: sPresent_def)
  have ok: "fst (update envOk [''a''] init) = None"
    and c: "client (snd (update envOk [''a''] init)) = Some (Client 0 [''a''])"
    by (simp_all add: update_def newClient_cases putIndex_cases envOk_def init_def)
  have ko: "fst (update envCreateFails [''a''] init) = Some ?e"
    and c': "client (snd (update envCreateFails [''a''] init)) = None"
    by (simp_all add: update_def newClient_cases putIndex_cases envCreateFails_def envOk_def init_def)
  have n: "constructions (trace (init :: nat state)) = []"
    by (simp add: init_def constructions_def)
  have 1: "watchSearch_iter envOk [''a''] (?h0, init) =
      (?ha, (snd (update envOk [''a''] init))\<lparr>trace := trace (snd (update envOk [''a''] init)) @ [Sleep 1]\<rparr>)"
    using watchSearch_iter_attempts [of ?h0 envOk "[''a'']" init 0] d ok by blast
  have 2: "watchSearch_iter envCreateFails [''a''] (?h0', init) =
      (?h0', (snd (update envCreateFails [''a''] init))
         \<lparr>trace := trace (snd (update envCreateFails [''a''] init)) @
            [LogError ''search: Failed to update search indexes'' ?e, Sleep 3]\<rparr>)"
    using watchSearch_iter_attempts [of ?h0' envCreateFails "[''a'']" init 0] d' ko by blast
  have 3: "constructions (trace (snd (watchSearch_iter envCreateFails [''a''] (?h0', init)))) =
      constructions (trace (init :: nat state)) @ [[''a'']]"
    using watchSearch_iter_attempts [of ?h0' envCreateFails "[''a'']" init 0] d' by blast
  have 4: "watchSearch_iter envOk [''a''] (?ha, sPresent) =
      (?ha, sPresent\<lparr>trace := trace sPresent @ [Sleep 1]\<rparr>)"
    using watchSearch_iter_attempts [of ?ha envOk "[''a'']" sPresent 0] by blast
  have 5: "run envOk (map WatchIter (replicate 3 [''a''])) (?ha, sPresent) =
      (?ha, sPresent\<lparr>trace := trace sPresent @ replicate 3 (Sleep 1)\<rparr>)"
    using watchSearch_iter_attempts [of ?ha envOk "[''a'']" sPresent 3] by blast
  have r: "replicate 3 (Sleep 1 :: nat event) = [Sleep 1, Sleep 1, Sleep 1]"
    by (simp add: numeral_3_eq_3)
  have "fst (watchSearch_iter envOk [''a''] (?h0, init)) = ?ha"
    and "client (snd (watchSearch_iter envOk [''a''] (?h0, init))) = Some (Client 0 [''a''])"
    and "fst (watchSearch_iter envCreateFails [''a''] (?h0', init)) = ?h0'"
    and "client (snd (watchSearch_iter envCreateFails [''a''] (?h0', init))) = None"
    and "watchSearch_iter envOk [''a''] (?ha, sPresent) = (?ha, sPresent\<lparr>trace := [Sleep 1]\<rparr>)"
    and "run envOk (map WatchIter (replicate 3 [''a''])) (?ha, sPresent) =
      (?ha, sPresent\<lparr>trace := [Sleep 1, Sleep 1, Sleep 1]\<rparr>)"
    unfolding 1 2 4 5 r using c c' t by simp_all
  moreover have "constructions (trace (snd (watchSearch_iter envCreateFails [''a''] (?h0', init)))) =
      [[''a'']]"
    using 3 n by simp
  ultimately show ?thesis
    using d by blast
qed

text \<open>
  Claim C6, as stated, fails where \<open>update\<close> fails: with a backend that refuses every
  index creation, two iterations with the unchanged address list \<open>["a"]\<close> make two client
  constructions and two index creations.
\<close>

theorem watchSearch_retry_counterexample:
  "\<not> (length (constructions (trace (snd (watchSearch envCreateFails [[''a''], [''a'']] init)))) \<le> 1 \<and>
      length (creations (trace (snd (watchSearch envCreateFails [[''a''], [''a'']] init)))) \<le> 1)"
  by (simp add: watchSearch_def run_def watchSearch_iter_def hashAddresses_concat update_def
      newClient_cases putIndex_cases envCreateFails_def envOk_def init_def emit_def
      constructions_def creations_def Let_def)

text \<open>
  Claim C9. \<open>hashAddresses\<close> digests the concatenation of the addresses, so address
  lists with the same concatenation have the same digest, whatever the digest function:
  \<open>["ab", "c"]\<close> and \<open>["a", "bc"]\<close>, \<open>["x"]\<close> and \<open>["x", ""]\<close>. When \<open>hash\<close> is the digest of one
  such list and the settings change to another, the iterations of \<open>watchSearch\<close> only
  sleep: \<open>update\<close> is never called for the change and the client stays as it was.
\<close>

theorem hashAddresses_collisions:
  "hashAddresses env [''ab'', ''c''] = hashAddresses env [''a'', ''bc''] \<and>
   hashAddresses env [''x''] = hashAddresses env [''x'', ''''] \<and>
   (\<forall>a b. concat a = concat b \<longrightarrow> hashAddresses env a = hashAddresses env b) \<and>
   (\<forall>a b n s. concat a = concat b \<longrightarrow>
      run env (map WatchIter (replicate n b)) (hashAddresses env a, s) =
        (hashAddresses env a, s\<lparr>trace := trace s @ replicate n (Sleep 1)\<rparr>))"
proof (intro conjI allI impI)
  fix a b :: "string list" and n and s :: "'a state"
  assume "concat a = concat b"
  then have "hashAddresses env a = hashAddresses env b"
    by (simp add: hashAddresses_concat)
  from run_same [OF this] show "run env (map WatchIter (replicate n b)) (hashAddresses env a, s) =
      (hashAddresses env a, s\<lparr>trace := trace s @ replicate n (Sleep 1)\<rparr>)" .
qed (simp_all add: hashAddresses_concat)


theorem hashAddresses_collisions_witness:
  "[''ab'', ''c''] \<noteq> [''a'', ''bc''] \<and> concat [''ab'', ''c''] = concat [''a'', ''bc''] \<and>
   hashAddresses envOk [''ab'', ''c''] = hashAddresses envOk [''a'', ''bc''] \<and>
   run envOk (map WatchIter (replicate 2 [''a'', ''bc''])) (hashAddresses envOk [''ab'', ''c''], sPresent) =
     (hashAddresses envOk [''ab'', ''c''], sPresent\<lparr>trace := [Sleep 1, Sleep 1]\<rparr>) \<and>
   client (snd (watchSearch envOk [[''ab'', ''c''], [''a'', ''bc''], [''a'', ''bc'']] init)) =
     Some (Client 0 [''ab'', ''c'']) \<and>
   constructions (trace (snd (watchSearch envOk [[''ab'', ''c''], [''a'', ''bc''], [''a'', ''bc'']] init))) =
     [[''ab'', ''c'']]"
proof -
  have cc: "concat [''ab'', ''c''] = concat [''a'', ''bc'']"
    by simp
  have t: "trace sPresent = []"
    by (simp add: sPresent_def)
  from hashAddresses_collisions [of envOk] cc
  have 1: "hashAddresses envOk [''ab'', ''c''] = hashAddresses envOk [''a'', ''bc'']"
    by blast
  from hashAddresses_collisions [of envOk] cc
  have "run envOk (map WatchIter (replicate 2 [''a'', ''bc''])) (hashAddresses envOk [''ab'', ''c''], sPresent) =
      (hashAddresses envOk [''ab'', ''c''], sPresent\<lparr>trace := trace sPresent @ replicate 2 (Sleep 1)\<rparr>)"
    by blast
  then have 2: "run envOk (map WatchIter (replicate 2 [''a'', ''bc''])) (hashAddresses envOk [''ab'', ''c''], sPresent) =
      (hashAddresses envOk [''ab'', ''c''], sPresent\<lparr>trace := [Sleep 1, Sleep 1]\<rparr>)"
    by (simp add: t numeral_2_eq_2)
  have 3: "watchSearch envOk [[''ab'', ''c''], [''a'', ''bc''], [''a'', ''bc'']] init =
      (''abc'', (snd (update envOk [''ab'', ''c''] init))
         \<lparr>trace := trace (snd (update envOk [''ab'', ''c''] init)) @ [Sleep 1, Sleep 1, Sleep 1]\<rparr>)"
    by (simp add: watchSearch_def run_def watchSearch_iter_def hashAddresses_concat envOk_def
        emit_def Let_def update_def newClient_cases putIndex_cases init_def)
  have 4: "client (snd (update envOk [''ab'', ''c''] init)) = Some (Client 0 [''ab'', ''c''])"
    "constructions (trace (snd (update envOk [''ab'', ''c''] init))) = [[''ab'', ''c'']]"
    by (simp_all add: update_def newClient_cases putIndex_cases envOk_def init_def constructions_def)
  have 5: "client (snd (watchSearch envOk [[''ab'', ''c''], [''a'', ''bc''], [''a'', ''bc'']] init)) =
      Some (Client 0 [''ab'', ''c''])"
    and 6: "constructions (trace (snd (watchSearch envOk
      [[''ab'', ''c''], [''a'', ''bc''], [''a'', ''bc'']] init))) = [[''ab'', ''c'']]"
    unfolding 3 using 4 by (simp_all add: constructions_append) (simp add: constructions_def)
  have "[''ab'', ''c''] \<noteq> [''a'', ''bc'']"
    by simp
  with cc 1 2 5 6 show ?thesis
    by blast
qed

subsection \<open>Delivery of what Index buffers\<close>

lemma concat_member_once:
  "distinct (concat xss) \<Longrightarrow> k < length xss \<Longrightarrow> k' < length xss \<Longrightarrow>
   x \<in> set (xss ! k) \<Longrightarrow> x \<in> set (xss ! k') \<Longrightarrow> k = k'"
proof (induction xss arbitrary: k k')
  case Nil
  then show ?case by simp
next
  case (Cons xs xss)
  from Cons.prems(1) have d: "distinct (concat xss)" and disj: "set xs \<inter> set (concat xss) = {}"
    by simp_all
  show ?case
  proof (cases k)
    case 0
    show ?thesis
    proof (cases k')
      case 0
      with \<open>k = 0\<close> show ?thesis by simp
    next
      case (Suc j)
      with Cons.prems have "x \<in> set (concat xss)" and "x \<in> set xs"
        using \<open>k = 0\<close> by auto
      with disj show ?thesis by blast
    qed
  next
    case (Suc i)
    show ?thesis
    proof (cases k')
      case 0
      with Cons.prems have "x \<in> set (concat xss)" and "x \<in> set xs"
        using \<open>k = Suc i\<close> by auto
      with disj show ?thesis by blast
    next
      case (Suc j)
      with Cons.prems \<open>k = Suc i\<close> Cons.IH [OF d, of i j] show ?thesis
        by simp
    qed
  qed
qed

lemma concat_member_unique:
  assumes "distinct (concat xss)" and "x \<in> set (concat xss)"
  shows "\<exists>!k. k < length xss \<and> x \<in> set (xss ! k)"
proof -
  from assms(2) obtain xs where "xs \<in> set xss" and "x \<in> set xs"
    by auto
  then obtain k where "k < length xss" and "x \<in> set (xss ! k)"
    by (auto simp: in_set_conv_nth)
  then show ?thesis
    using concat_member_once [OF assms(1)] by blast
qed

lemma inj_letters: "inj (\<lambda>n. replicate n CHR ''a'')"
proof (rule injI)
  fix n m :: nat
  assume "replicate n CHR ''a'' = replicate m CHR ''a''"
  then have "length (replicate n CHR ''a'') = length (replicate m CHR ''a'')"
    by simp
  then show "n = m" by simp
qed

lemma update_frame:
  "buffer (snd (update env addrs s)) = buffer s \<and>
   failedBuffer (snd (update env addrs s)) = failedBuffer s \<and>
   oids (snd (update env addrs s)) = oids s \<and>
   bulks (trace (snd (update env addrs s))) = bulks (trace s)"
  by (auto simp: update_def newClient_cases putIndex_cases bulks_append bulks_Cons bulks_Nil
      split: option.splits sum.splits bool.splits)

lemma watchSearch_iter_frame:
  "buffer (snd (watchSearch_iter env addrs (hash, s))) = buffer s \<and>
   failedBuffer (snd (watchSearch_iter env addrs (hash, s))) = failedBuffer s \<and>
   oids (snd (watchSearch_iter env addrs (hash, s))) = oids s \<and>
   bulks (trace (snd (watchSearch_iter env addrs (hash, s)))) = bulks (trace s)"
proof (cases "hash = hashAddresses env addrs")
  case True
  then show ?thesis
    by (simp add: watchSearch_iter_same bulks_append bulks_Cons bulks_Nil)
next
  case False
  with update_frame [of env addrs s] show ?thesis
    by (cases "update env addrs s")
      (auto simp: watchSearch_iter_differs bulks_append bulks_Cons bulks_Nil split: option.splits)
qed

lemma worker_iter_buffer: "buffer (worker_iter env s) = []"
proof (cases "client s = None \<or> buffer s = []")
  case True
  then show ?thesis by (simp add: worker_iter_idle)
next
  case False
  then obtain c where c: "client s = Some c" and b: "buffer s \<noteq> []"
    by auto
  let ?s1 = "s\<lparr>trace := trace s @ [Sleep 2], buffer := []\<rparr>"
  obtain evs where "snd (bulkLoop env c (buffer s) 0 None ?s1) = ?s1\<lparr>trace := trace ?s1 @ evs\<rparr>"
    using bulkLoop_shape [of env c "buffer s" 0 None ?s1] by blast
  then have "buffer (snd (bulkLoop env c (buffer s) 0 None ?s1)) = []"
    by simp
  then show ?thesis
    by (cases "bulkLoop env c (buffer s) 0 None ?s1")
      (simp add: worker_iter_unfold [OF c b] split: option.splits)
qed

lemma run_Cons: "run env (a # acts) hs = run env acts (step env hs a)"
  by (simp add: run_def)

lemma run_snoc: "run env (acts @ [a]) hs = step env (run env acts hs) a"
  by (simp add: run_def)

lemma run_accepted:
  assumes ok: "\<forall>h c rs. elastic_BulkDo env h c rs = None"
  shows "drainsPresent env acts (hash, s) \<Longrightarrow>
    failedBuffer (snd (run env acts (hash, s))) = failedBuffer s \<and>
    oids (snd (run env acts (hash, s))) = oids s + length (accepted env acts (hash, s)) \<and>
    map rId (accepted env acts (hash, s)) =
      map (NewObjectId_Hex env) [oids s ..< oids s + length (accepted env acts (hash, s))] \<and>
    (\<exists>new. bulks (trace (snd (run env acts (hash, s)))) = bulks (trace s) @ new \<and>
       concat new @ buffer (snd (run env acts (hash, s))) =
         buffer s @ accepted env acts (hash, s))"
proof (induction acts arbitrary: hash s)
  case Nil
  then show ?case by (simp add: run_def)
next
  case (Cons a acts)
  show ?case
  proof (cases a)
    case (CallIndex i t d)
    with Cons.prems have rest: "drainsPresent env acts (hash, Index env i t d s)"
      by simp
    note ih = Cons.IH [OF rest]
    show ?thesis
    proof (cases "client s")
      case None
      then have "Index env i t d s = s"
        by (simp add: Index_def)
      with ih CallIndex None show ?thesis
        by (simp add: run_Cons)
    next
      case (Some c)
      let ?r = "\<lparr>rIndex = i, rType = t, rId = NewObjectId_Hex env (oids s), rDoc = d\<rparr>"
      let ?s1 = "s\<lparr>buffer := buffer s @ [?r], oids := oids s + 1\<rparr>"
      let ?k = "length (accepted env acts (hash, ?s1))"
      have s1: "Index env i t d s = ?s1"
        using Some by (simp add: Index_def)
      have upt: "[oids s ..< oids s + Suc ?k] = oids s # [oids s + 1 ..< oids s + 1 + ?k]"
        by (simp add: upt_conv_Cons del: upt_Suc)
      from ih CallIndex Some upt show ?thesis
        unfolding s1 by (simp add: run_Cons s1 del: upt_Suc)
    qed
  next
    case WorkerIter
    with Cons.prems have pres: "client s \<noteq> None \<or> buffer s = []"
      and rest: "drainsPresent env acts (hash, worker_iter env s)"
      by simp_all
    note ih = Cons.IH [OF rest]
    show ?thesis
    proof (cases "buffer s = []")
      case True
      then have "worker_iter env s = s\<lparr>buffer := [], trace := trace s @ [Sleep 2]\<rparr>"
        by (simp add: worker_iter_idle)
      with ih WorkerIter True show ?thesis
        by (simp add: run_Cons bulks_append bulks_Cons bulks_Nil)
    next
      case False
      with pres obtain c where c: "client s = Some c"
        by auto
      let ?s1 = "s\<lparr>buffer := [], trace := trace s @ [Sleep 2, BulkDo c (buffer s) None]\<rparr>"
      have s1: "worker_iter env s = ?s1"
        using worker_iter_ok [OF c False] ok by simp
      from ih [unfolded s1]
      obtain new where new: "failedBuffer (snd (run env acts (hash, ?s1))) = failedBuffer s"
        "oids (snd (run env acts (hash, ?s1))) = oids s + length (accepted env acts (hash, ?s1))"
        "map rId (accepted env acts (hash, ?s1)) =
           map (NewObjectId_Hex env) [oids s ..< oids s + length (accepted env acts (hash, ?s1))]"
        "bulks (trace (snd (run env acts (hash, ?s1)))) = bulks (trace ?s1) @ new"
        "concat new @ buffer (snd (run env acts (hash, ?s1))) = accepted env acts (hash, ?s1)"
        by auto
      have r: "run env (a # acts) (hash, s) = run env acts (hash, ?s1)"
        and acc: "accepted env (a # acts) (hash, s) = accepted env acts (hash, ?s1)"
        using WorkerIter s1 by (simp_all add: run_Cons)
      have "bulks (trace (snd (run env acts (hash, ?s1)))) = bulks (trace s) @ (buffer s # new)"
        using new(4) by (simp add: bulks_append bulks_Cons bulks_Nil)
      moreover have "concat (buffer s # new) @ buffer (snd (run env acts (hash, ?s1))) =
          buffer s @ accepted env acts (hash, ?s1)"
        using new(5) by simp
      ultimately show ?thesis
        unfolding r acc using new(1,2,3) by blast
    qed
  next
    case (WatchIter addrs)
    obtain hash1 s1 where w: "watchSearch_iter env addrs (hash, s) = (hash1, s1)"
      by (cases "watchSearch_iter env addrs (hash, s)")
    with watchSearch_iter_frame [of env addrs hash s]
    have fr: "buffer s1 = buffer s" "failedBuffer s1 = failedBuffer s" "oids s1 = oids s"
      "bulks (trace s1) = bulks (trace s)"
      by simp_all
    from Cons.prems WatchIter w have "drainsPresent env acts (hash1, s1)"
      by simp
    from Cons.IH [OF this] WatchIter w fr show ?thesis
      by (simp add: run_Cons)
  qed
qed

lemma accepted_snoc_WorkerIter:
  "accepted env (acts @ [WorkerIter]) hs = accepted env acts hs"
proof (induction acts arbitrary: hs)
  case Nil
  then show ?case by (cases hs) simp
next
  case (Cons a acts)
  then show ?case by (cases hs; cases a) simp_all
qed


text \<open>
  Claim C2, as amended. Take any run of the package from its start, ended by an iteration
  of \<open>worker\<close>, in which the backend accepts every bulk submission and every iteration of
  \<open>worker\<close> finds the client set or the buffer empty. Then the payloads of the bulk
  submissions made, one after the other, are exactly the requests built by the calls of
  \<open>Index\<close> made while the client was set, in the order of the calls: every such request is
  in exactly one submission and each submission keeps the insertion order. The n-th of
  these requests carries the n-th object id drawn, so as long as the object ids never
  repeat the requests have pairwise distinct ids, also when their documents are equal.
  Nothing is left in the buffer and nothing is in \<open>failedBuffer\<close>.
\<close>

theorem accepted_delivered_once:
  assumes "\<forall>h c rs. elastic_BulkDo env h c rs = None"
    and "drainsPresent env (acts @ [WorkerIter]) (hashAddresses env [], init)"
  shows
    "concat (bulks (trace (snd (run env (acts @ [WorkerIter]) (hashAddresses env [], init))))) =
       accepted env acts (hashAddresses env [], init) \<and>
     map rId (accepted env acts (hashAddresses env [], init)) =
       map (NewObjectId_Hex env) [0 ..< length (accepted env acts (hashAddresses env [], init))] \<and>
     buffer (snd (run env (acts @ [WorkerIter]) (hashAddresses env [], init))) = [] \<and>
     failedBuffer (snd (run env (acts @ [WorkerIter]) (hashAddresses env [], init))) = [] \<and>
     (inj (NewObjectId_Hex env) \<longrightarrow>
        distinct (map rId (accepted env acts (hashAddresses env [], init))) \<and>
        (\<forall>r \<in> set (accepted env acts (hashAddresses env [], init)).
           \<exists>!k. k < length (bulks (trace (snd (run env (acts @ [WorkerIter])
                   (hashAddresses env [], init))))) \<and>
                 r \<in> set (bulks (trace (snd (run env (acts @ [WorkerIter])
                   (hashAddresses env [], init)))) ! k)))"
proof -
  let ?start = "(hashAddresses env [], init :: 'a state)"
  let ?end = "snd (run env (acts @ [WorkerIter]) ?start)"
  let ?acc = "accepted env acts ?start"
  have empty: "buffer ?end = []"
    by (cases "run env acts ?start") (simp add: run_snoc worker_iter_buffer)
  from run_accepted [OF assms(1) assms(2)]
  obtain new where new: "failedBuffer ?end = failedBuffer (init :: 'a state)"
    "map rId (accepted env (acts @ [WorkerIter]) ?start) =
       map (NewObjectId_Hex env)
         [oids (init :: 'a state) ..<
          oids (init :: 'a state) + length (accepted env (acts @ [WorkerIter]) ?start)]"
    "bulks (trace ?end) = bulks (trace (init :: 'a state)) @ new"
    "concat new @ buffer ?end = buffer (init :: 'a state) @ accepted env (acts @ [WorkerIter]) ?start"
    by blast
  have sent: "concat (bulks (trace ?end)) = ?acc"
    using new(3,4) empty by (simp add: init_def bulks_Nil accepted_snoc_WorkerIter)
  have ids: "map rId ?acc = map (NewObjectId_Hex env) [0 ..< length ?acc]"
    using new(2) by (simp add: init_def accepted_snoc_WorkerIter)
  have failed: "failedBuffer ?end = []"
    using new(1) by (simp add: init_def)
  have once: "distinct (map rId ?acc) \<and>
      (\<forall>r \<in> set ?acc. \<exists>!k. k < length (bulks (trace ?end)) \<and> r \<in> set (bulks (trace ?end) ! k))"
    if i: "inj (NewObjectId_Hex env)"
  proof
    show d: "distinct (map rId ?acc)"
      unfolding ids using i by (simp add: distinct_map inj_on_def inj_def)
    then have "distinct (concat (bulks (trace ?end)))"
      unfolding sent by (simp add: distinct_map)
    then show "\<forall>r \<in> set ?acc. \<exists>!k. k < length (bulks (trace ?end)) \<and>
        r \<in> set (bulks (trace ?end) ! k)"
      using concat_member_unique [of "bulks (trace ?end)"] sent by simp
  qed
  from sent ids empty failed once show ?thesis
    by blast
qed

theorem accepted_delivered_once_witness:
  "drainsPresent envOk
     ([CallIndex ''zero-requests'' ''request'' 6, WatchIter [''backend-1''],
       CallIndex ''zero-requests'' ''request'' 7, CallIndex ''zero-requests'' ''request'' 7,
       WorkerIter, WatchIter [], WorkerIter, WatchIter [''backend-2''],
       CallIndex ''zero-requests'' ''request'' 8] @ [WorkerIter])
     (hashAddresses envOk [], init) \<and>
   inj (NewObjectId_Hex envOk) \<and>
   accepted envOk
     [CallIndex ''zero-requests'' ''request'' 6, WatchIter [''backend-1''],
      CallIndex ''zero-requests'' ''request'' 7, CallIndex ''zero-requests'' ''request'' 7,
      WorkerIter, WatchIter [], WorkerIter, WatchIter [''backend-2''],
      CallIndex ''zero-requests'' ''request'' 8]
     (hashAddresses envOk [], init) =
     [\<lparr>rIndex = ''zero-requests'', rType = ''request'', rId = [], rDoc = 7\<rparr>,
      \<lparr>rIndex = ''zero-requests'', rType = ''request'', rId = ''a'', rDoc = 7\<rparr>,
      \<lparr>rIndex = ''zero-requests'', rType = ''request'', rId = ''aa'', rDoc = 8\<rparr>] \<and>
   concat (bulks (trace (snd (run envOk
     ([CallIndex ''zero-requests'' ''request'' 6, WatchIter [''backend-1''],
       CallIndex ''zero-requests'' ''request'' 7, CallIndex ''zero-requests'' ''request'' 7,
       WorkerIter, WatchIter [], WorkerIter, WatchIter [''backend-2''],
       CallIndex ''zero-requests'' ''request'' 8] @ [WorkerIter])
     (hashAddresses envOk [], init))))) =
     [\<lparr>rIndex = ''zero-requests'', rType = ''request'', rId = [], rDoc = 7\<rparr>,
      \<lparr>rIndex = ''zero-requests'', rType = ''request'', rId = ''a'', rDoc = 7\<rparr>,
      \<lparr>rIndex = ''zero-requests'', rType = ''request'', rId = ''aa'', rDoc = 8\<rparr>] \<and>
   bulks (trace (snd (run envOk
     ([CallIndex ''zero-requests'' ''request'' 6, WatchIter [''backend-1''],
       CallIndex ''zero-requests'' ''request'' 7, CallIndex ''zero-requests'' ''request'' 7,
       WorkerIter, WatchIter [], WorkerIter, WatchIter [''backend-2''],
       CallIndex ''zero-requests'' ''request'' 8] @ [WorkerIter])
     (hashAddresses envOk [], init)))) =
     [[\<lparr>rIndex = ''zero-requests'', rType = ''request'', rId = [], rDoc = 7\<rparr>,
       \<lparr>rIndex = ''zero-requests'', rType = ''request'', rId = ''a'', rDoc = 7\<rparr>],
      [\<lparr>rIndex = ''zero-requests'', rType = ''request'', rId = ''aa'', rDoc = 8\<rparr>]] \<and>
   distinct (map rId (accepted envOk
     [CallIndex ''zero-requests'' ''request'' 6, WatchIter [''backend-1''],
      CallIndex ''zero-requests'' ''request'' 7, CallIndex ''zero-requests'' ''request'' 7,
      WorkerIter, WatchIter [], WorkerIter, WatchIter [''backend-2''],
      CallIndex ''zero-requests'' ''request'' 8]
     (hashAddresses envOk [], init))) \<and>
   buffer (snd (run envOk
     ([CallIndex ''zero-requests'' ''request'' 6, WatchIter [''backend-1''],
       CallIndex ''zero-requests'' ''request'' 7, CallIndex ''zero-requests'' ''request'' 7,
       WorkerIter, WatchIter [], WorkerIter, WatchIter [''backend-2''],
       CallIndex ''zero-requests'' ''request'' 8] @ [WorkerIter])
     (hashAddresses envOk [], init))) = []"
proof -
  let ?acts = "[CallIndex ''zero-requests'' ''request'' (6::nat), WatchIter [''backend-1''],
    CallIndex ''zero-requests'' ''request'' 7, CallIndex ''zero-requests'' ''request'' 7,
    WorkerIter, WatchIter [], WorkerIter, WatchIter [''backend-2''],
    CallIndex ''zero-requests'' ''request'' 8]"
  let ?start = "(hashAddresses envOk [], init :: nat state)"
  let ?end = "snd (run envOk (?acts @ [WorkerIter]) ?start)"
  let ?rs = "[\<lparr>rIndex = ''zero-requests'', rType = ''request'', rId = [], rDoc = 7::nat\<rparr>,
      \<lparr>rIndex = ''zero-requests'', rType = ''request'', rId = ''a'', rDoc = 7\<rparr>,
      \<lparr>rIndex = ''zero-requests'', rType = ''request'', rId = ''aa'', rDoc = 8\<rparr>]"
  have ok: "\<forall>h c rs. elastic_BulkDo envOk h c rs = None"
    by (simp add: envOk_def)
  have i: "inj (NewObjectId_Hex envOk)"
    using inj_letters by (simp add: envOk_def)
  have p: "drainsPresent envOk (?acts @ [WorkerIter]) ?start"
    by (simp add: watchSearch_iter_def hashAddresses_concat update_def
        newClient_cases putIndex_cases Index_def worker_iter_idle worker_iter_ok envOk_def
        init_def emit_def Let_def)
  have a: "accepted envOk ?acts ?start = ?rs"
    by (simp add: watchSearch_iter_def hashAddresses_concat update_def
        newClient_cases putIndex_cases Index_def worker_iter_idle worker_iter_ok envOk_def
        init_def emit_def Let_def)
  note fact = accepted_delivered_once [OF ok p]
  from fact have 1: "concat (bulks (trace ?end)) = accepted envOk ?acts ?start"
    and 2: "buffer ?end = []"
    by blast+
  from fact i have 3: "distinct (map rId (accepted envOk ?acts ?start))"
    by blast
  have 4: "bulks (trace ?end) = [[?rs ! 0, ?rs ! 1], [?rs ! 2]]"
    by (simp add: run_def watchSearch_iter_def hashAddresses_concat update_def
        newClient_cases putIndex_cases Index_def worker_iter_idle worker_iter_ok envOk_def
        init_def emit_def Let_def bulks_append bulks_Cons bulks_Nil)
  have 5: "concat (bulks (trace ?end)) = ?rs"
    using 1 a by simp
  have 6: "bulks (trace ?end) =
     [[\<lparr>rIndex = ''zero-requests'', rType = ''request'', rId = [], rDoc = 7\<rparr>,
       \<lparr>rIndex = ''zero-requests'', rType = ''request'', rId = ''a'', rDoc = 7\<rparr>],
      [\<lparr>rIndex = ''zero-requests'', rType = ''request'', rId = ''aa'', rDoc = 8\<rparr>]]"
    using 4 by simp
  from p i a 5 6 3 2 show ?thesis
    by blast
qed

text \<open>
  Claim C2, as stated, fails when the client is set to nil between a call of \<open>Index\<close> and
  the next iteration of \<open>worker\<close>: the watcher builds a client, \<open>Index\<close> buffers a request,
  the watcher reads an empty address list and sets the client to nil, and \<open>worker\<close> drains
  the buffer and ends its iteration. With a backend that accepts everything the request
  is in no bulk submission and in neither buffer.
\<close>

theorem enqueued_lost_counterexample:
  "client (snd (run envOk [WatchIter [''backend-1'']] (hashAddresses envOk [], init))) =
     Some (Client 0 [''backend-1'']) \<and>
   buffer (snd (run envOk
     [WatchIter [''backend-1''], CallIndex ''zero-requests'' ''request'' 7]
     (hashAddresses envOk [], init))) =
     [\<lparr>rIndex = ''zero-requests'', rType = ''request'', rId = [], rDoc = 7\<rparr>] \<and>
   accepted envOk
     [WatchIter [''backend-1''], CallIndex ''zero-requests'' ''request'' 7, WatchIter [], WorkerIter]
     (hashAddresses envOk [], init) =
     [\<lparr>rIndex = ''zero-requests'', rType = ''request'', rId = [], rDoc = 7\<rparr>] \<and>
   \<not> drainsPresent envOk
     [WatchIter [''backend-1''], CallIndex ''zero-requests'' ''request'' 7, WatchIter [], WorkerIter]
     (hashAddresses envOk [], init) \<and>
   bulks (trace (snd (run envOk
     [WatchIter [''backend-1''], CallIndex ''zero-requests'' ''request'' 7, WatchIter [], WorkerIter]
     (hashAddresses envOk [], init)))) = [] \<and>
   buffer (snd (run envOk
     [WatchIter [''backend-1''], CallIndex ''zero-requests'' ''request'' 7, WatchIter [], WorkerIter]
     (hashAddresses envOk [], init))) = [] \<and>
   failedBuffer (snd (run envOk
     [WatchIter [''backend-1''], CallIndex ''zero-requests'' ''request'' 7, WatchIter [], WorkerIter]
     (hashAddresses envOk [], init))) = []"
  by (simp add: run_Cons run_def watchSearch_iter_def hashAddresses_concat update_def
      newClient_cases putIndex_cases Index_def worker_iter_idle envOk_def init_def emit_def
      Let_def bulks_append bulks_Cons bulks_Nil)

lemma worker_iter_first:
  assumes "client s = Some c" and "buffer s \<noteq> []"
  shows "\<exists>rest. trace (worker_iter env s) =
    trace s @ [Sleep 2, BulkDo c (buffer s) (elastic_BulkDo env (trace s @ [Sleep 2]) c (buffer s))]
      @ rest"
proof (cases "elastic_BulkDo env (trace s @ [Sleep 2]) c (buffer s)")
  case None
  with worker_iter_ok [OF assms this] show ?thesis
    by simp
next
  case (Some e)
  let ?b = "buffer s"
  let ?s1 = "s\<lparr>trace := trace s @ [Sleep 2], buffer := []\<rparr>"
  let ?s2 = "?s1\<lparr>trace := trace ?s1 @ [BulkDo c ?b (Some e), Sleep 1]\<rparr>"
  have loop: "bulkLoop env c ?b 0 None ?s1 = bulkLoop env c ?b (0 + 1) (Some e) ?s2"
    using Some by (subst bulkLoop_unfold) simp
  obtain evs where evs: "snd (bulkLoop env c ?b (0 + 1) (Some e) ?s2) = ?s2\<lparr>trace := trace ?s2 @ evs\<rparr>"
    using bulkLoop_shape [of env c ?b "0 + 1" "Some e" ?s2] by blast
  show ?thesis
  proof (cases "bulkLoop env c ?b (0 + 1) (Some e) ?s2")
    case (Pair r s3)
    with evs have s3: "s3 = ?s2\<lparr>trace := trace ?s2 @ evs\<rparr>"
      by simp
    show ?thesis
    proof (cases r)
      case None
      with Pair loop s3 Some show ?thesis
        by (simp add: worker_iter_unfold [OF assms])
    next
      case (Some e')
      with Pair loop s3 \<open>elastic_BulkDo env (trace s @ [Sleep 2]) c (buffer s) = Some e\<close>
      show ?thesis
        by (simp add: worker_iter_unfold [OF assms])
    qed
  qed
qed

lemma run_creations:
  "\<forall>x \<in> set (creations (trace (snd hs))). fst (snd x) = ''zero-requests'' \<Longrightarrow>
   \<forall>x \<in> set (creations (trace (snd (run env acts hs)))). fst (snd x) = ''zero-requests''"
proof (induction acts arbitrary: hs)
  case Nil
  then show ?case by (simp add: run_def)
next
  case (Cons a acts)
  obtain hash s where hs: "hs = (hash, s)"
    by (cases hs)
  obtain evs addrs where "trace (snd (step env (hash, s) a)) = trace s @ evs"
    "creations evs = [] \<or>
     creations evs = [(Client (length (trace s)) addrs, ''zero-requests'',
                       indexBody ''request'' catalog)]"
    using step_trace [of env hash s a] by blast
  with Cons.prems hs
  have "\<forall>x \<in> set (creations (trace (snd (step env hs a)))). fst (snd x) = ''zero-requests''"
    by (auto simp: creations_append)
  from Cons.IH [OF this] show ?case
    by (simp add: run_def)
qed

text \<open>
  Claim C10. \<open>Index\<close> checks neither its index name nor its document type: for any two
  strings, with a client set, the request is appended to the buffer under exactly these
  names, and the next iteration of \<open>worker\<close> starts with a bulk submission whose payload
  is the buffer with that request last. Yet every index ever created in a run of the
  package is \<open>zero-requests\<close>.
\<close>

theorem Index_unvalidated:
  assumes "client s = Some c"
  shows "buffer (Index env index typ data s) =
      buffer s @ [\<lparr>rIndex = index, rType = typ, rId = NewObjectId_Hex env (oids s), rDoc = data\<rparr>] \<and>
    (\<exists>rest. trace (worker_iter env (Index env index typ data s)) =
       trace s @
       [Sleep 2,
        BulkDo c
          (buffer s @ [\<lparr>rIndex = index, rType = typ, rId = NewObjectId_Hex env (oids s), rDoc = data\<rparr>])
          (elastic_BulkDo env (trace s @ [Sleep 2]) c
            (buffer s @ [\<lparr>rIndex = index, rType = typ, rId = NewObjectId_Hex env (oids s), rDoc = data\<rparr>]))]
       @ rest) \<and>
    (\<forall>x \<in> set (creations (trace (snd (run env' acts (hashAddresses env' [], init))))).
       fst (snd x) = ''zero-requests'')"
proof (intro conjI)
  let ?r = "\<lparr>rIndex = index, rType = typ, rId = NewObjectId_Hex env (oids s), rDoc = data\<rparr>"
  let ?s1 = "Index env index typ data s"
  have s1: "?s1 = s\<lparr>buffer := buffer s @ [?r], oids := oids s + 1\<rparr>"
    using assms by (simp add: Index_def)
  then show "buffer ?s1 = buffer s @ [?r]"
    by simp
  have "client ?s1 = Some c" and "buffer ?s1 \<noteq> []"
    using assms by (simp_all add: s1)
  from worker_iter_first [OF this, of env]
  show "\<exists>rest. trace (worker_iter env ?s1) =
      trace s @ [Sleep 2, BulkDo c (buffer s @ [?r])
        (elastic_BulkDo env (trace s @ [Sleep 2]) c (buffer s @ [?r]))] @ rest"
    by (simp add: s1)
  have "\<forall>x \<in> set (creations (trace (snd (hashAddresses env' [], init :: 'b state)))).
      fst (snd x) = ''zero-requests''"
    by (simp add: init_def creations_def)
  from run_creations [OF this]
  show "\<forall>x \<in> set (creations (trace (snd (run env' acts (hashAddresses env' [], init))))).
      fst (snd x) = ''zero-requests''" .
qed


theorem Index_unvalidated_witness:
  "client sPresent = Some (Client 0 [''backend-1'']) \<and>
   buffer (Index envOk [] ''never-created'' 9 sPresent) =
     buffer sPresent @ [\<lparr>rIndex = [], rType = ''never-created'', rId = ''aa'', rDoc = 9\<rparr>] \<and>
   take 2 (trace (worker_iter envOk (Index envOk [] ''never-created'' 9 sPresent))) =
     [Sleep 2,
      BulkDo (Client 0 [''backend-1''])
        (buffer sPresent @ [\<lparr>rIndex = [], rType = ''never-created'', rId = ''aa'', rDoc = 9\<rparr>])
        None]"
proof -
  let ?c = "Client 0 [''backend-1'']"
  have c: "client sPresent = Some ?c" and t: "trace sPresent = []"
    by (simp_all add: sPresent_def)
  have id: "NewObjectId_Hex envOk (oids sPresent) = ''aa''"
    by (simp add: envOk_def sPresent_def numeral_2_eq_2)
  have ok: "elastic_BulkDo envOk h c' rs = None" for h c' rs
    by (simp add: envOk_def)
  from Index_unvalidated [OF c, of envOk "[]" "''never-created''" 9 envOk "[]"]
  obtain rest where 1: "buffer (Index envOk [] ''never-created'' 9 sPresent) =
      buffer sPresent @ [\<lparr>rIndex = [], rType = ''never-created'', rId = ''aa'', rDoc = 9\<rparr>]"
    and 2: "trace (worker_iter envOk (Index envOk [] ''never-created'' 9 sPresent)) =
      [Sleep 2, BulkDo ?c
        (buffer sPresent @ [\<lparr>rIndex = [], rType = ''never-created'', rId = ''aa'', rDoc = 9\<rparr>])
        None] @ rest"
    unfolding id ok t by auto
  from c 1 show ?thesis
    unfolding 2 by simp
qed

end
